theory Spec2Isabelle
  imports Main "HOL-Library.Word"
begin

section \<open>The lease record (interface.go)\<close>

text \<open>
  Go's \<open>int\<close> is taken at its 64-bit width: \<open>+\<close> on \<open>go_int\<close> wraps around as
  \<open>Counter++\<close> does, \<open>sint\<close> reads the signed value and \<open><s\<close> is the signed order.
  A value of type \<open>interface{}\<close> is either \<open>nil\<close> or a boxed value.
\<close>

type_synonym go_int = "64 word"

datatype 'a interface = nil | Boxed 'a

record 'a Lease =
  Key :: string
  Owner :: string
  Counter :: go_int
  lastRenewal :: nat
  concurrencyToken :: string
  extrafields :: "(string \<rightharpoonup> 'a interface) option"

definition NewLease :: "string \<Rightarrow> 'a Lease" where
  "NewLease key =
     \<lparr>Key = key, Owner = [], Counter = 0, lastRenewal = 0, concurrencyToken = [],
      extrafields = None\<rparr>"

text \<open>\<open>Set\<close> allocates the map when it is still \<open>nil\<close> and then stores the value.\<close>

definition Set :: "'a Lease \<Rightarrow> string \<Rightarrow> 'a interface \<Rightarrow> 'a Lease" where
  "Set l key val =
     (let m = (case extrafields l of None \<Rightarrow> Map.empty | Some m \<Rightarrow> m)
      in l\<lparr>extrafields := Some (m(key \<mapsto> val))\<rparr>)"

text \<open>Reading a \<open>nil\<close> map or a missing key gives the zero value and \<open>false\<close>.\<close>

definition Get :: "'a Lease \<Rightarrow> string \<Rightarrow> 'a interface \<times> bool" where
  "Get l key =
     (case extrafields l of
        None \<Rightarrow> (nil, False)
      | Some m \<Rightarrow> (case m key of None \<Rightarrow> (nil, False) | Some val \<Rightarrow> (val, True)))"

definition hasNoOwner :: "'a Lease \<Rightarrow> bool" where
  "hasNoOwner l \<longleftrightarrow> Owner l = ''NULL'' \<or> Owner l = []"

section \<open>The lease table in DynamoDB\<close>

text \<open>
  The store is not part of the repository: the manager reaches it through the client of the
  AWS SDK. This section writes down the part of the documented DynamoDB contract that the
  manager relies on, for the requests the manager sends: one table whose hash key is the string
  attribute \<open>leaseKey\<close>, items as attribute maps (an item is found by the key it carries
  and there is at most one item for a key), condition expressions built from \<open>=\<close>,
  \<open>attribute_not_exists\<close>, \<open>AND\<close> and \<open>OR\<close>, and update expressions of the form
  \<open>SET a = :v, ...\<close>. Numbers are integers. A \<open>Scan\<close> answers with the whole table in one
  page. An error is either a request failure of the service, identified by its code, or any
  other error value.
\<close>

datatype AttributeValue = S string | N int

type_synonym Item = "(string \<times> AttributeValue) list"

type_synonym Table = "Item list"

datatype error = RequestFailure string | OtherError string

definition LeaseKeyKey :: string where "LeaseKeyKey = ''leaseKey''"
definition LeaseOwnerKey :: string where "LeaseOwnerKey = ''leaseOwner''"
definition LeaseCounterKey :: string where "LeaseCounterKey = ''leaseCounter''"

definition AlreadyExist :: string where "AlreadyExist = ''ResourceInUseException''"

definition ConditionalCheckFailed :: error where
  "ConditionalCheckFailed = RequestFailure ''ConditionalCheckFailedException''"

definition ResourceNotFound :: error where
  "ResourceNotFound = RequestFailure ''ResourceNotFoundException''"

definition ValidationError :: error where
  "ValidationError = RequestFailure ''ValidationException''"

definition maxScanRetries :: nat where "maxScanRetries = 3"
definition maxCreateRetries :: nat where "maxCreateRetries = 3"
definition maxUpdateRetries :: nat where "maxUpdateRetries = 2"
definition maxDeleteRetries :: nat where "maxDeleteRetries = 2"

text \<open>
  An operand of a condition is a value placeholder (\<open>:condCounter\<close>) or a name placeholder
  (\<open>#counter\<close>). In \<open>a OR b AND c\<close> the conjunction binds tighter, so the expression of
  \<open>DeleteLease\<close> is \<open>CondOr a (CondAnd b c)\<close>.
\<close>

datatype operand = Placeholder string | Name string

datatype condition =
    CondEq operand operand
  | AttributeNotExists operand
  | CondAnd condition condition
  | CondOr condition condition

record ItemRequest =
  reqKey :: Item
  ExpressionAttributeValues :: "(string \<times> AttributeValue) list"
  ExpressionAttributeNames :: "(string \<times> string) list option"
  ConditionExpression :: "condition option"

record UpdateItemInput = ItemRequest +
  UpdateExpression :: "(string \<times> string) list"

type_synonym DeleteItemInput = ItemRequest

text \<open>
  The service as the client sees it: the table (\<open>None\<close> until it is created), the outcomes
  the service has in store for the coming requests (\<open>Some e\<close>: the request fails with \<open>e\<close>
  and changes nothing, as a throttled or unreachable service does; \<open>None\<close> or an exhausted
  list: the request is served), and the number of requests received so far.
\<close>

record DynamoDB =
  table :: "Table option"
  faults :: "error option list"
  requests :: nat

definition receive :: "DynamoDB \<Rightarrow> error option \<times> DynamoDB" where
  "receive c =
     (case faults c of
        [] \<Rightarrow> (None, c\<lparr>requests := Suc (requests c)\<rparr>)
      | f # fs \<Rightarrow> (f, c\<lparr>faults := fs, requests := Suc (requests c)\<rparr>))"

definition names_of :: "(string \<times> string) list option \<Rightarrow> (string \<times> string) list" where
  "names_of ns = (case ns of None \<Rightarrow> [] | Some al \<Rightarrow> al)"

fun operandValue ::
  "(string \<times> string) list \<Rightarrow> (string \<times> AttributeValue) list \<Rightarrow> Item \<Rightarrow> operand
     \<Rightarrow> AttributeValue option" where
  "operandValue ns vs item (Placeholder p) = map_of vs p"
| "operandValue ns vs item (Name n) =
     (case map_of ns n of None \<Rightarrow> None | Some a \<Rightarrow> map_of item a)"

text \<open>A comparison with an attribute that the item does not have is false.\<close>

fun holds ::
  "(string \<times> string) list \<Rightarrow> (string \<times> AttributeValue) list \<Rightarrow> Item \<Rightarrow> condition
     \<Rightarrow> bool" where
  "holds ns vs item (CondEq a b) =
     (case (operandValue ns vs item a, operandValue ns vs item b) of
        (Some x, Some y) \<Rightarrow> x = y
      | _ \<Rightarrow> False)"
| "holds ns vs item (AttributeNotExists a) = (operandValue ns vs item a = None)"
| "holds ns vs item (CondAnd p q) = (holds ns vs item p \<and> holds ns vs item q)"
| "holds ns vs item (CondOr p q) = (holds ns vs item p \<or> holds ns vs item q)"

text \<open>
  A request is checked before it is served: every placeholder of its condition must be
  defined, and its key must be a non-empty string under \<open>leaseKey\<close>.
\<close>

fun operandDefined ::
  "(string \<times> string) list \<Rightarrow> (string \<times> AttributeValue) list \<Rightarrow> operand \<Rightarrow> bool" where
  "operandDefined ns vs (Placeholder p) = (map_of vs p \<noteq> None)"
| "operandDefined ns vs (Name n) = (map_of ns n \<noteq> None)"

fun conditionDefined ::
  "(string \<times> string) list \<Rightarrow> (string \<times> AttributeValue) list \<Rightarrow> condition \<Rightarrow> bool" where
  "conditionDefined ns vs (CondEq a b) = (operandDefined ns vs a \<and> operandDefined ns vs b)"
| "conditionDefined ns vs (AttributeNotExists a) = operandDefined ns vs a"
| "conditionDefined ns vs (CondAnd p q) = (conditionDefined ns vs p \<and> conditionDefined ns vs q)"
| "conditionDefined ns vs (CondOr p q) = (conditionDefined ns vs p \<and> conditionDefined ns vs q)"

definition keyOf :: "Item \<Rightarrow> string option" where
  "keyOf item =
     (case map_of item LeaseKeyKey of
        Some (S k) \<Rightarrow> (if k = [] then None else Some k)
      | _ \<Rightarrow> None)"

definition setAttr :: "string \<Rightarrow> AttributeValue \<Rightarrow> Item \<Rightarrow> Item" where
  "setAttr a v item = (a, v) # filter (\<lambda>(b, w). b \<noteq> a) item"

definition lookup :: "string \<Rightarrow> Table \<Rightarrow> Item option" where
  "lookup k t = find (\<lambda>item. keyOf item = Some k) t"

fun put :: "Item \<Rightarrow> Table \<Rightarrow> Table" where
  "put item [] = [item]"
| "put item (x # t) = (if keyOf x = keyOf item then item # t else x # put item t)"

definition remove :: "string \<Rightarrow> Table \<Rightarrow> Table" where
  "remove k t = filter (\<lambda>item. keyOf item \<noteq> Some k) t"

definition validCondition :: "'x ItemRequest_scheme \<Rightarrow> bool" where
  "validCondition inp =
     (case ConditionExpression inp of
        None \<Rightarrow> True
      | Some c \<Rightarrow>
          conditionDefined (names_of (ExpressionAttributeNames inp))
            (ExpressionAttributeValues inp) c)"

definition conditionMet :: "'x ItemRequest_scheme \<Rightarrow> Item \<Rightarrow> bool" where
  "conditionMet inp item =
     (case ConditionExpression inp of
        None \<Rightarrow> True
      | Some c \<Rightarrow>
          holds (names_of (ExpressionAttributeNames inp)) (ExpressionAttributeValues inp) item c)"

text \<open>An update may not assign the key attribute, and the values it assigns must be defined.\<close>

definition validUpdate :: "UpdateItemInput \<Rightarrow> bool" where
  "validUpdate inp =
     list_all (\<lambda>(a, p). a \<noteq> LeaseKeyKey \<and> map_of (ExpressionAttributeValues inp) p \<noteq> None)
       (UpdateExpression inp)"

text \<open>\<open>SET a = :v, ...\<close> assigns the attributes from left to right.\<close>

fun applySet :: "(string \<times> string) list \<Rightarrow> (string \<times> AttributeValue) list \<Rightarrow> Item \<Rightarrow> Item" where
  "applySet [] vs item = item"
| "applySet ((a, p) # sets) vs item =
     applySet sets vs (case map_of vs p of None \<Rightarrow> item | Some v \<Rightarrow> setAttr a v item)"

text \<open>\<open>CreateTable\<close> fails with \<open>ResourceInUseException\<close> when the table is there already.\<close>

definition CreateTable :: "DynamoDB \<Rightarrow> error option \<times> DynamoDB" where
  "CreateTable c =
     (case receive c of
        (Some e, c') \<Rightarrow> (Some e, c')
      | (None, c') \<Rightarrow>
          (case table c' of
             None \<Rightarrow> (None, c'\<lparr>table := Some []\<rparr>)
           | Some t \<Rightarrow> (Some (RequestFailure AlreadyExist), c')))"

text \<open>\<open>PutItem\<close> without a condition stores the item, replacing the whole item under its key.\<close>

definition PutItem :: "Item \<Rightarrow> DynamoDB \<Rightarrow> error option \<times> DynamoDB" where
  "PutItem item c =
     (case receive c of
        (Some e, c') \<Rightarrow> (Some e, c')
      | (None, c') \<Rightarrow>
          (case keyOf item of
             None \<Rightarrow> (Some ValidationError, c')
           | Some k \<Rightarrow>
               (case table c' of
                  None \<Rightarrow> (Some ResourceNotFound, c')
                | Some t \<Rightarrow> (None, c'\<lparr>table := Some (put item t)\<rparr>))))"

text \<open>
  \<open>UpdateItem\<close> evaluates the condition on the stored item (on an item without attributes
  when there is none), then assigns the attributes; it creates the item, from the key, when
  there is none.
\<close>

definition UpdateItem :: "UpdateItemInput \<Rightarrow> DynamoDB \<Rightarrow> error option \<times> DynamoDB" where
  "UpdateItem inp c =
     (case receive c of
        (Some e, c') \<Rightarrow> (Some e, c')
      | (None, c') \<Rightarrow>
          (case keyOf (reqKey inp) of
             None \<Rightarrow> (Some ValidationError, c')
           | Some k \<Rightarrow>
               if \<not> validCondition inp \<or> \<not> validUpdate inp then (Some ValidationError, c')
               else
                 (case table c' of
                    None \<Rightarrow> (Some ResourceNotFound, c')
                  | Some t \<Rightarrow>
                      if conditionMet inp (case lookup k t of None \<Rightarrow> [] | Some item \<Rightarrow> item)
                      then
                        (None, c'\<lparr>table := Some (put
                           (applySet (UpdateExpression inp) (ExpressionAttributeValues inp)
                              (case lookup k t of None \<Rightarrow> reqKey inp | Some item \<Rightarrow> item)) t)\<rparr>)
                      else (Some ConditionalCheckFailed, c'))))"

text \<open>\<open>DeleteItem\<close> evaluates the condition the same way, then removes the item if there is one.\<close>

definition DeleteItem :: "DeleteItemInput \<Rightarrow> DynamoDB \<Rightarrow> error option \<times> DynamoDB" where
  "DeleteItem inp c =
     (case receive c of
        (Some e, c') \<Rightarrow> (Some e, c')
      | (None, c') \<Rightarrow>
          (case keyOf (reqKey inp) of
             None \<Rightarrow> (Some ValidationError, c')
           | Some k \<Rightarrow>
               if \<not> validCondition inp then (Some ValidationError, c')
               else
                 (case table c' of
                    None \<Rightarrow> (Some ResourceNotFound, c')
                  | Some t \<Rightarrow>
                      if conditionMet inp (case lookup k t of None \<Rightarrow> [] | Some item \<Rightarrow> item)
                      then (None, c'\<lparr>table := Some (remove k t)\<rparr>)
                      else (Some ConditionalCheckFailed, c'))))"

text \<open>\<open>Scan\<close> returns the items of the table; on an error there is no output.\<close>

definition Scan :: "DynamoDB \<Rightarrow> Item list \<times> error option \<times> DynamoDB" where
  "Scan c =
     (case receive c of
        (Some e, c') \<Rightarrow> ([], Some e, c')
      | (None, c') \<Rightarrow>
          (case table c' of
             None \<Rightarrow> ([], Some ResourceNotFound, c')
           | Some t \<Rightarrow> (t, None, c')))"

section \<open>Decoding an item into a lease\<close>

text \<open>
  \<open>dynamodbattribute.UnmarshalMap\<close> fills the tagged fields \<open>leaseKey\<close>, \<open>leaseOwner\<close> and
  \<open>leaseCounter\<close> of a new \<open>Lease\<close> and ignores every other attribute; a missing attribute
  leaves the zero value. A string field takes a string, or the text of a number; an \<open>int\<close>
  field takes a number that fits and rejects everything else.
\<close>

function digits :: "nat \<Rightarrow> string" where
  "digits n =
     (if n < 10 then [char_of (48 + n)] else digits (n div 10) @ [char_of (48 + n mod 10)])"
  by pat_completeness auto
termination
  by (relation "measure id") auto

definition Itoa :: "int \<Rightarrow> string" where
  "Itoa i = (if i < 0 then CHR ''-'' # digits (nat (- i)) else digits (nat i))"

definition UnmarshalTypeError :: error where
  "UnmarshalTypeError = OtherError ''UnmarshalTypeError''"

definition decodeString :: "AttributeValue option \<Rightarrow> error + string" where
  "decodeString av =
     (case av of None \<Rightarrow> Inr [] | Some (S s) \<Rightarrow> Inr s | Some (N n) \<Rightarrow> Inr (Itoa n))"

definition decodeInt :: "AttributeValue option \<Rightarrow> error + go_int" where
  "decodeInt av =
     (case av of
        None \<Rightarrow> Inr 0
      | Some (S s) \<Rightarrow> Inl UnmarshalTypeError
      | Some (N n) \<Rightarrow>
          if - (2 ^ 63) \<le> n \<and> n < 2 ^ 63 then Inr (word_of_int n) else Inl UnmarshalTypeError)"

definition UnmarshalMap :: "Item \<Rightarrow> error + 'a Lease" where
  "UnmarshalMap item =
     (case decodeString (map_of item LeaseKeyKey) of
        Inl e \<Rightarrow> Inl e
      | Inr key \<Rightarrow>
          (case decodeString (map_of item LeaseOwnerKey) of
             Inl e \<Rightarrow> Inl e
           | Inr owner \<Rightarrow>
               (case decodeInt (map_of item LeaseCounterKey) of
                  Inl e \<Rightarrow> Inl e
                | Inr counter \<Rightarrow> Inr ((NewLease key)\<lparr>Owner := owner, Counter := counter\<rparr>))))"

section \<open>The manager (LeaseManager over its Config)\<close>

text \<open>
  Modelled from the spec: the \<open>Config\<close> type that \<open>LeaseManager\<close> embeds is not among the
  sources. Of the options the spec lists (section 6.3) the manager uses the worker id, the
  client of the store and the backoff policy. The backoff is a counter of attempts with a
  policy giving the delay of each attempt: \<open>Attempt\<close> reads the counter, \<open>Duration\<close> returns
  the delay of the current attempt and counts it, \<open>Reset\<close> sets the counter back to zero.
  The logger has no effect on the state and is left out. \<open>now\<close> is the wall clock, which
  \<open>time.Sleep\<close> advances and \<open>time.Now\<close> reads.

  An operation returns what the Go method returns, followed by the manager as it is afterwards:
  the \<open>error\<close> result is an \<open>error option\<close> with \<open>None\<close> for \<open>nil\<close>, and an operation that
  mutates the lease it is given returns that lease as well. A retry loop is a recursive
  function over the manager, whose measure is the number of attempts left; the variable
  \<open>err\<close> of the method is its second argument. A backoff is fresh when its counter is zero:
  every operation with a loop resets the backoff before it returns and \<open>CreateLease\<close> does
  not touch it, so the backoff is fresh at the start of every call made in sequence.
\<close>

record Backoff =
  attempt :: nat
  ForAttempt :: "nat \<Rightarrow> nat"

definition Attempt :: "Backoff \<Rightarrow> nat" where
  "Attempt b = attempt b"

definition Duration :: "Backoff \<Rightarrow> nat \<times> Backoff" where
  "Duration b = (ForAttempt b (attempt b), b\<lparr>attempt := Suc (attempt b)\<rparr>)"

definition Reset :: "Backoff \<Rightarrow> Backoff" where
  "Reset b = b\<lparr>attempt := 0\<rparr>"

record LeaseManager =
  WorkerId :: string
  Client :: DynamoDB
  Backoff :: Backoff
  now :: nat

text \<open>The tail of every retry loop: take the next delay from the backoff, log, sleep.\<close>

definition sleepBackoff :: "LeaseManager \<Rightarrow> LeaseManager" where
  "sleepBackoff l =
     (let (backoff, b) = Duration (Backoff l)
      in l\<lparr>Backoff := b, now := now l + backoff\<rparr>)"

subsection \<open>CreateLeaseTable\<close>

function createTableLoop :: "error option \<Rightarrow> LeaseManager \<Rightarrow> error option \<times> LeaseManager" where
  "createTableLoop err l =
     (if Attempt (Backoff l) < maxCreateRetries then
        (case CreateTable (Client l) of
           (None, c) \<Rightarrow> (None, l\<lparr>Client := c\<rparr>)
         | (Some e, c) \<Rightarrow>
             if (case e of RequestFailure code \<Rightarrow> code = AlreadyExist | OtherError msg \<Rightarrow> False)
             then (None, l\<lparr>Client := c\<rparr>)
             else createTableLoop (Some e) (sleepBackoff (l\<lparr>Client := c\<rparr>)))
      else (err, l))"
  by pat_completeness auto
termination
  by (relation "measure (\<lambda>(err, l). maxCreateRetries - Attempt (Backoff l))")
    (auto simp: sleepBackoff_def Duration_def Attempt_def)

definition CreateLeaseTable :: "LeaseManager \<Rightarrow> error option \<times> LeaseManager" where
  "CreateLeaseTable l =
     (let (err, l') = createTableLoop None l
      in (err, l'\<lparr>Backoff := Reset (Backoff l')\<rparr>))"

subsection \<open>updateLease and the three operations built on it\<close>

text \<open>
  The request of \<open>updateLease\<close>, built in the order of the source: the unconditional
  \<open>SET\<close> of owner and counter first, then the counter check for a lease whose counter is
  positive, then the owner check for a lease whose owner is not empty, joined by \<open>AND\<close> when
  a check is there already; names and condition are attached only when there is a check.
\<close>

definition updateInput :: "'a Lease \<Rightarrow> 'a Lease \<Rightarrow> UpdateItemInput" where
  "updateInput updateLease condLease =
     (let input0 =
            \<lparr>reqKey = [(LeaseKeyKey, S (Key updateLease))],
             ExpressionAttributeValues =
               [('':owner'', S (Owner updateLease)),
                ('':count'', N (sint (Counter updateLease)))],
             ExpressionAttributeNames = None,
             ConditionExpression = None,
             UpdateExpression = [(LeaseOwnerKey, '':owner''), (LeaseCounterKey, '':count'')]\<rparr>;
          (input1, attrExp1, condExp1) =
            (if 0 <s Counter condLease
             then (input0\<lparr>ExpressionAttributeValues :=
                      setAttr '':condCounter'' (N (sint (Counter condLease)))
                        (ExpressionAttributeValues input0)\<rparr>,
                   [(''#counter'', LeaseCounterKey)],
                   Some (CondEq (Placeholder '':condCounter'') (Name ''#counter'')))
             else (input0, [], None));
          (input2, attrExp2, condExp2) =
            (if Owner condLease \<noteq> []
             then (input1\<lparr>ExpressionAttributeValues :=
                      setAttr '':condOwner'' (S (Owner condLease))
                        (ExpressionAttributeValues input1)\<rparr>,
                   (''#owner'', LeaseOwnerKey) # attrExp1,
                   (case condExp1 of
                      None \<Rightarrow> Some (CondEq (Placeholder '':condOwner'') (Name ''#owner''))
                    | Some c \<Rightarrow>
                        Some (CondAnd c (CondEq (Placeholder '':condOwner'') (Name ''#owner'')))))
             else (input1, attrExp1, condExp1))
      in if condExp2 \<noteq> None
         then input2\<lparr>ExpressionAttributeNames := Some attrExp2, ConditionExpression := condExp2\<rparr>
         else input2)"

function updateLoop ::
  "UpdateItemInput \<Rightarrow> error option \<Rightarrow> LeaseManager \<Rightarrow> error option \<times> LeaseManager" where
  "updateLoop input err l =
     (if Attempt (Backoff l) < maxUpdateRetries then
        (case UpdateItem input (Client l) of
           (None, c) \<Rightarrow> (None, l\<lparr>Client := c\<rparr>)
         | (Some e, c) \<Rightarrow> updateLoop input (Some e) (sleepBackoff (l\<lparr>Client := c\<rparr>)))
      else (err, l))"
  by pat_completeness auto
termination
  by (relation "measure (\<lambda>(inp, err, l). maxUpdateRetries - Attempt (Backoff l))")
    (auto simp: sleepBackoff_def Duration_def Attempt_def)

definition updateLease ::
  "'a Lease \<Rightarrow> 'a Lease \<Rightarrow> LeaseManager \<Rightarrow> error option \<times> LeaseManager" where
  "updateLease updLease condLease l =
     (let (err, l') = updateLoop (updateInput updLease condLease) None l
      in (err, l'\<lparr>Backoff := Reset (Backoff l')\<rparr>))"

text \<open>
  The three operations work on a copy of the lease and write the new fields back to the
  caller's lease only when \<open>updateLease\<close> returned no error. Each returns the error, the
  caller's lease as it is afterwards, and the manager.
\<close>

definition RenewLease ::
  "'a Lease \<Rightarrow> LeaseManager \<Rightarrow> error option \<times> 'a Lease \<times> LeaseManager" where
  "RenewLease lease l =
     (let clease = lease\<lparr>Counter := Counter lease + 1\<rparr>;
          (err, l') = updateLease clease lease l
      in (err, (if err = None then lease\<lparr>Counter := Counter clease\<rparr> else lease), l'))"

definition EvictLease ::
  "'a Lease \<Rightarrow> LeaseManager \<Rightarrow> error option \<times> 'a Lease \<times> LeaseManager" where
  "EvictLease lease l =
     (let clease = lease\<lparr>Owner := ''NULL''\<rparr>;
          (err, l') = updateLease clease lease l
      in (err, (if err = None then lease\<lparr>Owner := Owner clease\<rparr> else lease), l'))"

definition TakeLease ::
  "'a Lease \<Rightarrow> LeaseManager \<Rightarrow> error option \<times> 'a Lease \<times> LeaseManager" where
  "TakeLease lease l =
     (let clease = lease\<lparr>Counter := Counter lease + 1, Owner := WorkerId l\<rparr>;
          (err, l') = updateLease clease lease l
      in (err,
          (if err = None then lease\<lparr>Owner := Owner clease, Counter := Counter clease\<rparr>
           else lease),
          l'))"

subsection \<open>ListLeases\<close>

text \<open>
  Every item of the scan that decodes is appended to the list and stamped with the time
  read at that moment; an item that does not decode is passed over.
\<close>

fun appendLeases :: "Item list \<Rightarrow> 'a Lease list \<Rightarrow> nat \<Rightarrow> 'a Lease list" where
  "appendLeases [] list t = list"
| "appendLeases (item # items) list t =
     (case UnmarshalMap item of
        Inl e \<Rightarrow> appendLeases items list t
      | Inr lease \<Rightarrow> appendLeases items (list @ [lease\<lparr>lastRenewal := t\<rparr>]) t)"

function scanLoop ::
  "'a Lease list \<Rightarrow> error option \<Rightarrow> LeaseManager
     \<Rightarrow> 'a Lease list \<times> error option \<times> LeaseManager" where
  "scanLoop list err l =
     (if Attempt (Backoff l) < maxScanRetries then
        (case Scan (Client l) of
           (items, Some e, c) \<Rightarrow> scanLoop list (Some e) (sleepBackoff (l\<lparr>Client := c\<rparr>))
         | (items, None, c) \<Rightarrow> (appendLeases items list (now l), None, l\<lparr>Client := c\<rparr>))
      else (list, err, l))"
  by pat_completeness auto
termination
  by (relation "measure (\<lambda>(list, err, l). maxScanRetries - Attempt (Backoff l))")
    (auto simp: sleepBackoff_def Duration_def Attempt_def)

definition ListLeases :: "LeaseManager \<Rightarrow> 'a Lease list \<times> error option \<times> LeaseManager" where
  "ListLeases l =
     (let (list, err, l') = scanLoop [] None l
      in (list, err, l'\<lparr>Backoff := Reset (Backoff l')\<rparr>))"

subsection \<open>DeleteLease and CreateLease\<close>

definition deleteInput :: "'a Lease \<Rightarrow> DeleteItemInput" where
  "deleteInput lease =
     \<lparr>reqKey = [(LeaseKeyKey, S (Key lease))],
      ExpressionAttributeValues =
        [('':condOwner'', S (Owner lease)), ('':condCounter'', N (sint (Counter lease)))],
      ExpressionAttributeNames =
        Some [(''#counter'', LeaseCounterKey), (''#owner'', LeaseOwnerKey),
              (''#key'', LeaseKeyKey)],
      ConditionExpression =
        Some (CondOr (AttributeNotExists (Name ''#key''))
                (CondAnd (CondEq (Placeholder '':condCounter'') (Name ''#counter''))
                   (CondEq (Placeholder '':condOwner'') (Name ''#owner''))))\<rparr>"

function deleteLoop ::
  "'a Lease \<Rightarrow> error option \<Rightarrow> LeaseManager \<Rightarrow> error option \<times> LeaseManager" where
  "deleteLoop lease err l =
     (if Attempt (Backoff l) < maxDeleteRetries then
        (case DeleteItem (deleteInput lease) (Client l) of
           (None, c) \<Rightarrow> (None, l\<lparr>Client := c\<rparr>)
         | (Some e, c) \<Rightarrow> deleteLoop lease (Some e) (sleepBackoff (l\<lparr>Client := c\<rparr>)))
      else (err, l))"
  by pat_completeness auto
termination
  by (relation "measure (\<lambda>(lease, err, l). maxDeleteRetries - Attempt (Backoff l))")
    (auto simp: sleepBackoff_def Duration_def Attempt_def)

definition DeleteLease :: "'a Lease \<Rightarrow> LeaseManager \<Rightarrow> error option \<times> LeaseManager" where
  "DeleteLease lease l =
     (let (err, l') = deleteLoop lease None l
      in (err, l'\<lparr>Backoff := Reset (Backoff l')\<rparr>))"

text \<open>\<open>CreateLease\<close> puts an item that has the key and nothing else, once, without a condition.\<close>

definition CreateLease :: "'a Lease \<Rightarrow> LeaseManager \<Rightarrow> error option \<times> LeaseManager" where
  "CreateLease lease l =
     (let (err, c) = PutItem [(LeaseKeyKey, S (Key lease))] (Client l)
      in (err, l\<lparr>Client := c\<rparr>))"

text \<open>What the table holds under a key, and the two attributes of a stored lease.\<close>

definition stored :: "LeaseManager \<Rightarrow> string \<Rightarrow> Item option" where
  "stored l k = (case table (Client l) of None \<Rightarrow> None | Some t \<Rightarrow> lookup k t)"

definition storedOwner :: "LeaseManager \<Rightarrow> string \<Rightarrow> AttributeValue option" where
  "storedOwner l k = (case stored l k of None \<Rightarrow> None | Some item \<Rightarrow> map_of item LeaseOwnerKey)"

definition storedCounter :: "LeaseManager \<Rightarrow> string \<Rightarrow> AttributeValue option" where
  "storedCounter l k =
     (case stored l k of None \<Rightarrow> None | Some item \<Rightarrow> map_of item LeaseCounterKey)"

text \<open>The number of requests the store received between two states of the manager.\<close>

definition attempts :: "LeaseManager \<Rightarrow> LeaseManager \<Rightarrow> nat" where
  "attempts l l' = requests (Client l') - requests (Client l)"

text \<open>
  The same manager in front of a store that serves every request, and the manager after \<open>k\<close>
  requests have failed: the store has \<open>rest\<close> left in store, the backoff has counted \<open>k\<close>
  attempts and the clock has advanced by the delays of these attempts.
\<close>

definition served :: "LeaseManager \<Rightarrow> LeaseManager" where
  "served l = l\<lparr>Client := (Client l)\<lparr>faults := []\<rparr>\<rparr>"

definition afterFailures :: "nat \<Rightarrow> error option list \<Rightarrow> LeaseManager \<Rightarrow> LeaseManager" where
  "afterFailures k rest l =
     l\<lparr>Client := (Client l)\<lparr>faults := rest, requests := requests (Client l) + k\<rparr>,
       Backoff := (Backoff l)\<lparr>attempt := attempt (Backoff l) + k\<rparr>,
       now := now l + (\<Sum>i<k. ForAttempt (Backoff l) (attempt (Backoff l) + i))\<rparr>"

text \<open>
  What it is for an operation \<open>run\<close> to retry up to \<open>cap\<close> attempts with the delays of the
  backoff, when the store fails the first requests with the errors \<open>es\<close>, all of a kind that
  is retried, and serves the requests after them. With \<open>cap\<close> failures or more the operation
  returns the error of attempt \<open>cap\<close> after exactly \<open>cap\<close> requests, having slept the delay
  of each of these attempts, and the table is as before. With fewer failures, if the operation
  succeeds against the store that serves, it succeeds here too, with the same table, after one
  request more than there were failures, having slept the delay of each failed attempt.
\<close>

definition retriesUpTo ::
  "nat \<Rightarrow> (error \<Rightarrow> bool) \<Rightarrow> (LeaseManager \<Rightarrow> error option \<times> LeaseManager) \<Rightarrow> bool" where
  "retriesUpTo cap retried run \<longleftrightarrow>
     (\<forall>l es. Attempt (Backoff l) = 0 \<and> faults (Client l) = map Some es \<and> list_all retried es \<longrightarrow>
        (cap \<le> length es \<longrightarrow>
           fst (run l) = Some (es ! (cap - 1)) \<and>
           attempts l (snd (run l)) = cap \<and>
           table (Client (snd (run l))) = table (Client l) \<and>
           now (snd (run l)) = now l + (\<Sum>i<cap. ForAttempt (Backoff l) i)) \<and>
        (length es < cap \<and> fst (run (served l)) = None \<longrightarrow>
           fst (run l) = None \<and>
           attempts l (snd (run l)) = Suc (length es) \<and>
           table (Client (snd (run l))) = table (Client (snd (run (served l)))) \<and>
           now (snd (run l)) = now l + (\<Sum>i<length es. ForAttempt (Backoff l) i)))"

section \<open>A concrete table and its workers\<close>

text \<open>
  The table of the scenarios of the spec: lease \<open>A\<close> held by worker \<open>w2\<close> at counter 5.
  Worker \<open>w1\<close> talks to it with a fresh backoff whose delays double from 100.
\<close>

definition policy :: "nat \<Rightarrow> nat" where
  "policy n = 100 * 2 ^ n"

definition itemA :: Item where
  "itemA = [(LeaseKeyKey, S ''A''), (LeaseOwnerKey, S ''w2''), (LeaseCounterKey, N 5)]"

definition worker1 :: LeaseManager where
  "worker1 =
     \<lparr>WorkerId = ''w1'',
      Client = \<lparr>table = Some [itemA], faults = [], requests = 0\<rparr>,
      Backoff = \<lparr>attempt = 0, ForAttempt = policy\<rparr>,
      now = 1000\<rparr>"

text \<open>Leases as callers may hold them: in step with the table, one renewal behind, and new.\<close>

definition heldLease :: "unit Lease" where
  "heldLease = (NewLease ''A'')\<lparr>Owner := ''w2'', Counter := 5\<rparr>"

definition staleLease :: "unit Lease" where
  "staleLease = (NewLease ''A'')\<lparr>Owner := ''w2'', Counter := 4\<rparr>"

definition newLease :: "unit Lease" where
  "newLease = NewLease ''A''"

definition absentLease :: "unit Lease" where
  "absentLease = NewLease ''Z''"

text \<open>The same worker in front of a table where \<open>A\<close> has just been created.\<close>

definition createdItem :: Item where
  "createdItem = [(LeaseKeyKey, S ''A'')]"

definition starter :: LeaseManager where
  "starter = worker1\<lparr>Client := \<lparr>table = Some [createdItem], faults = [], requests = 0\<rparr>\<rparr>"

text \<open>
  A table that also has a record written by someone else, whose counter is a string, and a
  service that fails the first request and serves the next ones.
\<close>

definition oddItem :: Item where
  "oddItem = [(LeaseKeyKey, S ''B''), (LeaseCounterKey, S ''seven'')]"

definition lister :: LeaseManager where
  "lister = worker1\<lparr>Client := \<lparr>table = Some [itemA, oddItem], faults = [], requests = 0\<rparr>\<rparr>"

definition timeout :: error where
  "timeout = OtherError ''RequestError: timeout''"

definition flaky :: LeaseManager where
  "flaky = worker1\<lparr>Client := \<lparr>table = Some [itemA], faults = [Some timeout], requests = 0\<rparr>\<rparr>"

definition down :: LeaseManager where
  "down =
     worker1\<lparr>Client := \<lparr>table = Some [itemA], faults = [Some timeout, Some timeout],
                        requests = 0\<rparr>\<rparr>"

section \<open>Facts about the store and the requests\<close>

declare updateLoop.simps [simp del]
declare deleteLoop.simps [simp del]
declare scanLoop.simps [simp del]
declare createTableLoop.simps [simp del]

subsection \<open>The table\<close>

lemma lookup_keyOf: "lookup k t = Some item \<Longrightarrow> keyOf item = Some k"
  unfolding lookup_def by (induction t) (auto split: if_splits)

lemma lookup_put:
  "keyOf item = Some k \<Longrightarrow> lookup k' (put item t) = (if k' = k then Some item else lookup k' t)"
  unfolding lookup_def by (induction t) auto

lemma lookup_remove: "lookup k' (remove k t) = (if k' = k then None else lookup k' t)"
  unfolding lookup_def remove_def by (induction t) auto

lemma map_of_setAttr: "map_of (setAttr a v item) = (map_of item)(a \<mapsto> v)"
proof -
  have "map_of (filter (\<lambda>(b, w). b \<noteq> a) item) b = (if b = a then None else map_of item b)" for b
    by (induction item) auto
  then show ?thesis
    by (auto simp: setAttr_def fun_eq_iff)
qed


subsection \<open>The service\<close>

lemma receive_served: "faults c = [] \<Longrightarrow> receive c = (None, c\<lparr>requests := Suc (requests c)\<rparr>)"
  by (simp add: receive_def)

lemma receive_cases:
  obtains (served) c' where "receive c = (None, c')" "table c' = table c" "requests c' = Suc (requests c)"
  | (failed) e c' where "receive c = (Some e, c')" "table c' = table c" "requests c' = Suc (requests c)"
  by (cases "faults c"; cases "hd (faults c)") (auto simp: receive_def)

lemma UpdateItem_served:
  assumes "faults c = []" "table c = Some t" "keyOf (reqKey inp) = Some k"
    "validCondition inp" "validUpdate inp"
  shows "UpdateItem inp c =
     (if conditionMet inp (case lookup k t of None \<Rightarrow> [] | Some item \<Rightarrow> item)
      then (None, c\<lparr>requests := Suc (requests c),
                    table := Some (put
                       (applySet (UpdateExpression inp) (ExpressionAttributeValues inp)
                          (case lookup k t of None \<Rightarrow> reqKey inp | Some item \<Rightarrow> item)) t)\<rparr>)
      else (Some ConditionalCheckFailed, c\<lparr>requests := Suc (requests c)\<rparr>))"
  using assms by (simp add: UpdateItem_def receive_served)

lemma UpdateItem_None:
  assumes "UpdateItem inp c = (None, c')"
  shows "\<exists>t k. table c = Some t \<and> keyOf (reqKey inp) = Some k \<and>
    conditionMet inp (case lookup k t of None \<Rightarrow> [] | Some item \<Rightarrow> item) \<and>
    table c' = Some (put (applySet (UpdateExpression inp) (ExpressionAttributeValues inp)
                          (case lookup k t of None \<Rightarrow> reqKey inp | Some item \<Rightarrow> item)) t) \<and>
    requests c' = Suc (requests c)"
proof (cases c rule: receive_cases)
  case (served c1)
  from assms served(1) obtain k where k: "keyOf (reqKey inp) = Some k"
    by (cases "keyOf (reqKey inp)") (auto simp: UpdateItem_def)
  from assms served(1) k have valid: "validCondition inp" "validUpdate inp"
    by (auto simp: UpdateItem_def split: if_splits)
  from assms served k valid obtain t where t: "table c = Some t"
    by (cases "table c") (auto simp: UpdateItem_def)
  from assms served k valid t show ?thesis
    by (auto simp: UpdateItem_def split: if_splits)
next
  case (failed e c1)
  with assms show ?thesis by (simp add: UpdateItem_def)
qed

lemma UpdateItem_Some:
  assumes "UpdateItem inp c = (Some e, c')"
  shows "table c' = table c \<and> requests c' = Suc (requests c)"
  using assms
  by (cases c rule: receive_cases)
    (auto simp: UpdateItem_def split: option.splits if_splits)

lemma DeleteItem_served:
  assumes "faults c = []" "table c = Some t" "keyOf (reqKey inp) = Some k" "validCondition inp"
  shows "DeleteItem inp c =
     (if conditionMet inp (case lookup k t of None \<Rightarrow> [] | Some item \<Rightarrow> item)
      then (None, c\<lparr>requests := Suc (requests c), table := Some (remove k t)\<rparr>)
      else (Some ConditionalCheckFailed, c\<lparr>requests := Suc (requests c)\<rparr>))"
  using assms by (simp add: DeleteItem_def receive_served)

lemma requests_UpdateItem: "requests (snd (UpdateItem inp c)) = Suc (requests c)"
  by (cases "UpdateItem inp c"; cases "fst (UpdateItem inp c)")
    (auto dest: UpdateItem_None UpdateItem_Some)

lemma requests_DeleteItem: "requests (snd (DeleteItem inp c)) = Suc (requests c)"
  by (cases c rule: receive_cases) (auto simp: DeleteItem_def split: option.splits if_splits)

lemma requests_PutItem: "requests (snd (PutItem item c)) = Suc (requests c)"
  by (cases c rule: receive_cases) (auto simp: PutItem_def split: option.splits if_splits)

lemma requests_CreateTable: "requests (snd (CreateTable c)) = Suc (requests c)"
  by (cases c rule: receive_cases) (auto simp: CreateTable_def split: option.splits if_splits)

lemma requests_Scan: "requests (snd (snd (Scan c))) = Suc (requests c)"
  by (cases c rule: receive_cases) (auto simp: Scan_def split: option.splits if_splits)

subsection \<open>The request of updateLease\<close>

lemma keyOf_updateInput:
  "keyOf (reqKey (updateInput u c)) = (if Key u = [] then None else Some (Key u))"
  by (simp add: updateInput_def keyOf_def Let_def)

lemma reqKey_updateInput: "reqKey (updateInput u c) = [(LeaseKeyKey, S (Key u))]"
  by (simp add: updateInput_def Let_def)

lemma validCondition_updateInput: "validCondition (updateInput u c)"
  by (simp add: updateInput_def validCondition_def names_of_def Let_def map_of_setAttr)

lemma validUpdate_updateInput: "validUpdate (updateInput u c)"
  by (simp add: updateInput_def validUpdate_def Let_def map_of_setAttr
      LeaseKeyKey_def LeaseOwnerKey_def LeaseCounterKey_def)

lemma conditionMet_updateInput:
  "conditionMet (updateInput u c) item \<longleftrightarrow>
     (0 <s Counter c \<longrightarrow> map_of item LeaseCounterKey = Some (N (sint (Counter c)))) \<and>
     (Owner c \<noteq> [] \<longrightarrow> map_of item LeaseOwnerKey = Some (S (Owner c)))"
  by (auto simp add: updateInput_def conditionMet_def names_of_def Let_def map_of_setAttr
      split: option.splits)



subsection \<open>The retry loops\<close>

lemma sleepBackoff_simps:
  "Client (sleepBackoff l) = Client l"
  "WorkerId (sleepBackoff l) = WorkerId l"
  "Attempt (Backoff (sleepBackoff l)) = Suc (Attempt (Backoff l))"
  "now (sleepBackoff l) = now l + ForAttempt (Backoff l) (attempt (Backoff l))"
  by (simp_all add: sleepBackoff_def Duration_def Attempt_def)

lemma updateLoop_done:
  "\<not> Attempt (Backoff l) < maxUpdateRetries \<Longrightarrow> updateLoop inp err l = (err, l)"
  by (subst updateLoop.simps) simp

lemma updateLoop_step:
  "Attempt (Backoff l) < maxUpdateRetries \<Longrightarrow> updateLoop inp err l =
     (case UpdateItem inp (Client l) of
           (None, c) \<Rightarrow> (None, l\<lparr>Client := c\<rparr>)
         | (Some e, c) \<Rightarrow> updateLoop inp (Some e) (sleepBackoff (l\<lparr>Client := c\<rparr>)))"
  by (subst updateLoop.simps) simp

text \<open>With a fresh backoff the loop of \<open>updateLease\<close> is two attempts.\<close>

lemma updateLoop_fresh:
  assumes "Attempt (Backoff l) = 0"
  shows "updateLoop inp err l =
     (case UpdateItem inp (Client l) of
        (None, c) \<Rightarrow> (None, l\<lparr>Client := c\<rparr>)
      | (Some e, c) \<Rightarrow>
          (case UpdateItem inp c of
             (None, c') \<Rightarrow> (None, (sleepBackoff (l\<lparr>Client := c\<rparr>))\<lparr>Client := c'\<rparr>)
           | (Some e', c') \<Rightarrow>
               (Some e', sleepBackoff ((sleepBackoff (l\<lparr>Client := c\<rparr>))\<lparr>Client := c'\<rparr>))))"
proof -
  have third: "updateLoop inp e2 (sleepBackoff ((sleepBackoff (l\<lparr>Client := c\<rparr>))\<lparr>Client := c'\<rparr>))
      = (e2, sleepBackoff ((sleepBackoff (l\<lparr>Client := c\<rparr>))\<lparr>Client := c'\<rparr>))" for e2 c c'
    using assms by (simp add: updateLoop_done sleepBackoff_simps maxUpdateRetries_def)
  have second: "updateLoop inp e1 (sleepBackoff (l\<lparr>Client := c\<rparr>)) =
      (case UpdateItem inp c of
             (None, c') \<Rightarrow> (None, (sleepBackoff (l\<lparr>Client := c\<rparr>))\<lparr>Client := c'\<rparr>)
           | (Some e', c') \<Rightarrow>
               (Some e', sleepBackoff ((sleepBackoff (l\<lparr>Client := c\<rparr>))\<lparr>Client := c'\<rparr>)))" for e1 c
    using assms
    by (simp add: updateLoop_step sleepBackoff_simps maxUpdateRetries_def third
        split: prod.splits option.splits)
  show ?thesis
    using assms
    by (simp add: updateLoop_step maxUpdateRetries_def second split: prod.splits option.splits)
qed

subsection \<open>updateLease\<close>

text \<open>The guard of a conditional write, read on the stored record.\<close>

lemma conditionMet_stored:
  assumes "table (Client l) = Some t"
  shows "conditionMet (updateInput u c) (case lookup (Key u) t of None \<Rightarrow> [] | Some i \<Rightarrow> i) \<longleftrightarrow>
     (0 <s Counter c \<longrightarrow> storedCounter l (Key u) = Some (N (sint (Counter c)))) \<and>
     (Owner c \<noteq> [] \<longrightarrow> storedOwner l (Key u) = Some (S (Owner c)))"
  using assms
  by (simp add: conditionMet_updateInput storedCounter_def storedOwner_def stored_def
      split: option.splits)

lemma UpdateItem_updateInput_None:
  assumes "UpdateItem (updateInput u c) d = (None, d')"
  shows "\<exists>t. table d = Some t \<and> Key u \<noteq> [] \<and>
     conditionMet (updateInput u c) (case lookup (Key u) t of None \<Rightarrow> [] | Some i \<Rightarrow> i) \<and>
     table d' = Some (put
        (applySet (UpdateExpression (updateInput u c)) (ExpressionAttributeValues (updateInput u c))
           (case lookup (Key u) t of None \<Rightarrow> [(LeaseKeyKey, S (Key u))] | Some i \<Rightarrow> i)) t) \<and>
     requests d' = Suc (requests d)"
proof -
  from UpdateItem_None [OF assms] obtain t k where
    t: "table d = Some t" and k: "keyOf (reqKey (updateInput u c)) = Some k" and
    met: "conditionMet (updateInput u c) (case lookup k t of None \<Rightarrow> [] | Some item \<Rightarrow> item)" and
    tab: "table d' = Some (put (applySet (UpdateExpression (updateInput u c))
            (ExpressionAttributeValues (updateInput u c))
            (case lookup k t of None \<Rightarrow> reqKey (updateInput u c) | Some item \<Rightarrow> item)) t)" and
    req: "requests d' = Suc (requests d)"
    by blast
  from k have "Key u \<noteq> []" "k = Key u"
    by (auto simp: keyOf_updateInput split: if_splits)
  with t met tab req show ?thesis
    by (simp add: reqKey_updateInput cong: option.case_cong)
qed

lemma updateLease_None:
  assumes "Attempt (Backoff l) = 0" "updateLease u c l = (None, l')"
  shows "\<exists>t. table (Client l) = Some t \<and> Key u \<noteq> [] \<and>
     conditionMet (updateInput u c) (case lookup (Key u) t of None \<Rightarrow> [] | Some i \<Rightarrow> i) \<and>
     table (Client l') = Some (put
        (applySet (UpdateExpression (updateInput u c)) (ExpressionAttributeValues (updateInput u c))
           (case lookup (Key u) t of None \<Rightarrow> [(LeaseKeyKey, S (Key u))] | Some i \<Rightarrow> i)) t) \<and>
     Suc (requests (Client l)) \<le> requests (Client l') \<and>
     requests (Client l') \<le> requests (Client l) + 2 \<and>
     Attempt (Backoff l') = 0 \<and> WorkerId l' = WorkerId l"
proof (cases "UpdateItem (updateInput u c) (Client l)")
  case (Pair r1 c1)
  show ?thesis
  proof (cases r1)
    case None
    from UpdateItem_updateInput_None [OF Pair [unfolded None]] assms Pair None show ?thesis
      by (auto simp: updateLease_def updateLoop_fresh Reset_def Attempt_def)
  next
    case (Some e1)
    note first = UpdateItem_Some [OF Pair [unfolded Some]]
    obtain r2 c2 where second: "UpdateItem (updateInput u c) c1 = (r2, c2)"
      by (cases "UpdateItem (updateInput u c) c1")
    with assms Pair Some have r2: "r2 = None"
      by (cases r2) (auto simp: updateLease_def updateLoop_fresh)
    from UpdateItem_updateInput_None [OF second [unfolded r2]] first assms Pair Some second r2
    show ?thesis
      by (auto simp: updateLease_def updateLoop_fresh Reset_def Attempt_def sleepBackoff_def
          Duration_def)
  qed
qed

lemma updateLease_Some:
  assumes "Attempt (Backoff l) = 0" "updateLease u c l = (Some e, l')"
  shows "table (Client l') = table (Client l) \<and>
     requests (Client l') = requests (Client l) + 2 \<and>
     Attempt (Backoff l') = 0 \<and> WorkerId l' = WorkerId l \<and>
     now l' = now l + ForAttempt (Backoff l) 0 + ForAttempt (Backoff l) 1"
proof (cases "UpdateItem (updateInput u c) (Client l)")
  case (Pair r1 c1)
  with assms obtain e1 where r1: "r1 = Some e1"
    by (cases r1) (auto simp: updateLease_def updateLoop_fresh)
  note first = UpdateItem_Some [OF Pair [unfolded r1]]
  obtain r2 c2 where second: "UpdateItem (updateInput u c) c1 = (r2, c2)"
    by (cases "UpdateItem (updateInput u c) c1")
  with assms Pair r1 obtain e2 where r2: "r2 = Some e2"
    by (cases r2) (auto simp: updateLease_def updateLoop_fresh)
  from UpdateItem_Some [OF second [unfolded r2]] first assms Pair r1 second r2 show ?thesis
    by (auto simp: updateLease_def updateLoop_fresh Reset_def Attempt_def sleepBackoff_def
        Duration_def)
qed



lemma updateLease_served:
  assumes "Attempt (Backoff l) = 0" "faults (Client l) = []" "table (Client l) = Some t"
    "Key u \<noteq> []"
    "0 <s Counter c \<longrightarrow> storedCounter l (Key u) = Some (N (sint (Counter c)))"
    "Owner c \<noteq> [] \<longrightarrow> storedOwner l (Key u) = Some (S (Owner c))"
  shows "fst (updateLease u c l) = None \<and>
         requests (Client (snd (updateLease u c l))) = Suc (requests (Client l))"
proof -
  have "conditionMet (updateInput u c) (case lookup (Key u) t of None \<Rightarrow> [] | Some i \<Rightarrow> i)"
    using assms by (simp add: conditionMet_stored [OF assms(3)])
  then show ?thesis
    using assms(1-4)
    by (simp add: updateLease_def updateLoop_fresh UpdateItem_served [where t = t and k = "Key u"]
        keyOf_updateInput validCondition_updateInput validUpdate_updateInput)
qed

lemma updateLease_refused:
  assumes "Attempt (Backoff l) = 0" "faults (Client l) = []" "table (Client l) = Some t"
    "Key u \<noteq> []"
    "\<not> ((0 <s Counter c \<longrightarrow> storedCounter l (Key u) = Some (N (sint (Counter c)))) \<and>
        (Owner c \<noteq> [] \<longrightarrow> storedOwner l (Key u) = Some (S (Owner c))))"
  shows "fst (updateLease u c l) = Some ConditionalCheckFailed"
proof -
  have "\<not> conditionMet (updateInput u c) (case lookup (Key u) t of None \<Rightarrow> [] | Some i \<Rightarrow> i)"
    using assms(5) by (simp add: conditionMet_stored [OF assms(3)])
  then show ?thesis
    using assms(1-4)
    by (simp add: updateLease_def updateLoop_fresh UpdateItem_served [where t = t and k = "Key u"]
        keyOf_updateInput validCondition_updateInput validUpdate_updateInput)
qed

lemma stored_present:
  assumes "stored l k = Some item"
  shows "\<exists>t. table (Client l) = Some t" and "k \<noteq> []"
    and "storedOwner l k = map_of item LeaseOwnerKey"
    and "storedCounter l k = map_of item LeaseCounterKey"
    and "map_of item LeaseKeyKey = Some (S k)"
proof -
  from assms obtain t where t: "table (Client l) = Some t" "lookup k t = Some item"
    by (auto simp: stored_def split: option.splits)
  then show "\<exists>t. table (Client l) = Some t" by blast
  from lookup_keyOf [OF t(2)] show "k \<noteq> []" "map_of item LeaseKeyKey = Some (S k)"
    by (auto simp: keyOf_def split: option.splits AttributeValue.splits if_splits)
  from assms show "storedOwner l k = map_of item LeaseOwnerKey"
    "storedCounter l k = map_of item LeaseCounterKey"
    by (simp_all add: storedOwner_def storedCounter_def)
qed

lemma worker1_facts:
  "Attempt (Backoff worker1) = 0" "faults (Client worker1) = []"
  "table (Client worker1) = Some [itemA]" "stored worker1 ''A'' = Some itemA"
  "storedOwner worker1 ''A'' = Some (S ''w2'')" "storedCounter worker1 ''A'' = Some (N 5)"
  "WorkerId worker1 = ''w1''" "requests (Client worker1) = 0"
  by (simp_all add: worker1_def Attempt_def stored_def storedOwner_def storedCounter_def
      lookup_def keyOf_def itemA_def LeaseKeyKey_def LeaseOwnerKey_def LeaseCounterKey_def)

lemma lease_facts:
  "Key heldLease = ''A''" "Owner heldLease = ''w2''" "Counter heldLease = 5"
  "Key staleLease = ''A''" "Owner staleLease = ''w2''" "Counter staleLease = 4"
  "Key newLease = ''A''" "Owner newLease = []" "Counter newLease = 0"
  by (simp_all add: heldLease_def staleLease_def newLease_def NewLease_def)

lemma operations_unfold:
  "fst (RenewLease lease l) = fst (updateLease (lease\<lparr>Counter := Counter lease + 1\<rparr>) lease l)"
  "snd (snd (RenewLease lease l)) = snd (updateLease (lease\<lparr>Counter := Counter lease + 1\<rparr>) lease l)"
  "fst (TakeLease lease l) =
     fst (updateLease (lease\<lparr>Counter := Counter lease + 1, Owner := WorkerId l\<rparr>) lease l)"
  "snd (snd (TakeLease lease l)) =
     snd (updateLease (lease\<lparr>Counter := Counter lease + 1, Owner := WorkerId l\<rparr>) lease l)"
  "fst (EvictLease lease l) = fst (updateLease (lease\<lparr>Owner := ''NULL''\<rparr>) lease l)"
  "snd (snd (EvictLease lease l)) = snd (updateLease (lease\<lparr>Owner := ''NULL''\<rparr>) lease l)"
  by (simp_all add: RenewLease_def TakeLease_def EvictLease_def Let_def split: prod.splits)


lemma starter_facts:
  "Attempt (Backoff starter) = 0" "faults (Client starter) = []"
  "table (Client starter) = Some [createdItem]" "stored starter ''A'' = Some createdItem"
  "storedOwner starter ''A'' = None" "storedCounter starter ''A'' = None"
  "WorkerId starter = ''w1''" "requests (Client starter) = 0"
  by (simp_all add: starter_def worker1_def Attempt_def stored_def storedOwner_def
      storedCounter_def lookup_def keyOf_def createdItem_def LeaseKeyKey_def LeaseOwnerKey_def
      LeaseCounterKey_def)



subsection \<open>DeleteLease\<close>

lemma keyOf_deleteInput:
  "keyOf (reqKey (deleteInput lease)) = (if Key lease = [] then None else Some (Key lease))"
  by (simp add: deleteInput_def keyOf_def)

lemma validCondition_deleteInput: "validCondition (deleteInput lease)"
  by (simp add: deleteInput_def validCondition_def names_of_def)

lemma conditionMet_deleteInput:
  "conditionMet (deleteInput lease) item \<longleftrightarrow>
     map_of item LeaseKeyKey = None \<or>
     (map_of item LeaseCounterKey = Some (N (sint (Counter lease))) \<and>
      map_of item LeaseOwnerKey = Some (S (Owner lease)))"
  by (auto simp add: deleteInput_def conditionMet_def names_of_def split: option.splits)

lemma deleteLoop_done:
  "\<not> Attempt (Backoff l) < maxDeleteRetries \<Longrightarrow> deleteLoop lease err l = (err, l)"
  by (subst deleteLoop.simps) simp

lemma deleteLoop_step:
  "Attempt (Backoff l) < maxDeleteRetries \<Longrightarrow> deleteLoop lease err l =
     (case DeleteItem (deleteInput lease) (Client l) of
           (None, c) \<Rightarrow> (None, l\<lparr>Client := c\<rparr>)
         | (Some e, c) \<Rightarrow> deleteLoop lease (Some e) (sleepBackoff (l\<lparr>Client := c\<rparr>)))"
  by (subst deleteLoop.simps) simp

lemma deleteLoop_fresh:
  assumes "Attempt (Backoff l) = 0"
  shows "deleteLoop lease err l =
     (case DeleteItem (deleteInput lease) (Client l) of
        (None, c) \<Rightarrow> (None, l\<lparr>Client := c\<rparr>)
      | (Some e, c) \<Rightarrow>
          (case DeleteItem (deleteInput lease) c of
             (None, c') \<Rightarrow> (None, (sleepBackoff (l\<lparr>Client := c\<rparr>))\<lparr>Client := c'\<rparr>)
           | (Some e', c') \<Rightarrow>
               (Some e', sleepBackoff ((sleepBackoff (l\<lparr>Client := c\<rparr>))\<lparr>Client := c'\<rparr>))))"
proof -
  have third: "deleteLoop lease e2 (sleepBackoff ((sleepBackoff (l\<lparr>Client := c\<rparr>))\<lparr>Client := c'\<rparr>))
      = (e2, sleepBackoff ((sleepBackoff (l\<lparr>Client := c\<rparr>))\<lparr>Client := c'\<rparr>))" for e2 c c'
    using assms by (simp add: deleteLoop_done sleepBackoff_simps maxDeleteRetries_def)
  have second: "deleteLoop lease e1 (sleepBackoff (l\<lparr>Client := c\<rparr>)) =
      (case DeleteItem (deleteInput lease) c of
             (None, c') \<Rightarrow> (None, (sleepBackoff (l\<lparr>Client := c\<rparr>))\<lparr>Client := c'\<rparr>)
           | (Some e', c') \<Rightarrow>
               (Some e', sleepBackoff ((sleepBackoff (l\<lparr>Client := c\<rparr>))\<lparr>Client := c'\<rparr>)))" for e1 c
    using assms
    by (simp add: deleteLoop_step sleepBackoff_simps maxDeleteRetries_def third
        split: prod.splits option.splits)
  show ?thesis
    using assms
    by (simp add: deleteLoop_step maxDeleteRetries_def second split: prod.splits option.splits)
qed

text \<open>With a serving store the outcome of \<open>DeleteLease\<close> is decided by the condition.\<close>

lemma DeleteLease_served:
  assumes "Attempt (Backoff l) = 0" "faults (Client l) = []" "table (Client l) = Some t"
    "Key lease \<noteq> []"
  shows "DeleteLease lease l =
     (if conditionMet (deleteInput lease)
           (case lookup (Key lease) t of None \<Rightarrow> [] | Some item \<Rightarrow> item)
      then (None, l\<lparr>Client := (Client l)\<lparr>requests := Suc (requests (Client l)),
                                           table := Some (remove (Key lease) t)\<rparr>,
                    Backoff := Reset (Backoff l)\<rparr>)
      else (Some ConditionalCheckFailed,
            l\<lparr>Client := (Client l)\<lparr>requests := requests (Client l) + 2\<rparr>,
              Backoff := Reset (Backoff l),
              now := now l + ForAttempt (Backoff l) 0 + ForAttempt (Backoff l) 1\<rparr>))"
  using assms
  by (simp add: DeleteLease_def deleteLoop_fresh
      DeleteItem_served [where t = t and k = "Key lease"] keyOf_deleteInput
      validCondition_deleteInput sleepBackoff_def Duration_def Reset_def Attempt_def)

lemma conditionMet_delete_stored:
  assumes "table (Client l) = Some t"
  shows "conditionMet (deleteInput lease)
           (case lookup (Key lease) t of None \<Rightarrow> [] | Some item \<Rightarrow> item) \<longleftrightarrow>
         stored l (Key lease) = None \<or>
         (storedOwner l (Key lease) = Some (S (Owner lease)) \<and>
          storedCounter l (Key lease) = Some (N (sint (Counter lease))))"
proof (cases "stored l (Key lease)")
  case None
  with assms show ?thesis
    by (simp add: conditionMet_deleteInput stored_def)
next
  case (Some item)
  from stored_present [OF Some] Some assms show ?thesis
    by (auto simp: conditionMet_deleteInput stored_def)
qed

lemma updateLease_refused_twice:
  assumes "Attempt (Backoff l) = 0" "faults (Client l) = []" "table (Client l) = Some t"
    "Key u \<noteq> []"
    "\<not> ((0 <s Counter c \<longrightarrow> storedCounter l (Key u) = Some (N (sint (Counter c)))) \<and>
        (Owner c \<noteq> [] \<longrightarrow> storedOwner l (Key u) = Some (S (Owner c))))"
  shows "fst (updateLease u c l) = Some ConditionalCheckFailed \<and>
         requests (Client (snd (updateLease u c l))) = requests (Client l) + 2 \<and>
         table (Client (snd (updateLease u c l))) = table (Client l)"
proof -
  have r: "fst (updateLease u c l) = Some ConditionalCheckFailed"
    by (rule updateLease_refused [OF assms])
  then have "updateLease u c l = (Some ConditionalCheckFailed, snd (updateLease u c l))"
    by (cases "updateLease u c l") simp
  from updateLease_Some [OF assms(1) this] r show ?thesis by simp
qed

subsection \<open>CreateLease\<close>

lemma CreateLease_served:
  assumes "faults (Client l) = []" "table (Client l) = Some t" "Key lease \<noteq> []"
  shows "CreateLease lease l =
     (None, l\<lparr>Client := (Client l)\<lparr>requests := Suc (requests (Client l)),
                   table := Some (put [(LeaseKeyKey, S (Key lease))] t)\<rparr>\<rparr>)"
  using assms by (simp add: CreateLease_def PutItem_def receive_served keyOf_def)

lemma requests_CreateLease:
  "requests (Client (snd (CreateLease lease l))) = Suc (requests (Client l))"
  using requests_PutItem [of "[(LeaseKeyKey, S (Key lease))]" "Client l"]
  by (auto simp: CreateLease_def split: prod.splits)

subsection \<open>ListLeases\<close>

lemma Scan_cases:
  obtains (listed) t c' where "Scan c = (t, None, c')" "table c = Some t" "table c' = Some t"
      "requests c' = Suc (requests c)"
  | (failed) e c' where "Scan c = ([], Some e, c')" "table c' = table c"
      "requests c' = Suc (requests c)"
  by (cases c rule: receive_cases; cases "table c") (auto simp: Scan_def)

lemma scanLoop_done:
  "\<not> Attempt (Backoff l) < maxScanRetries \<Longrightarrow> scanLoop list err l = (list, err, l)"
  by (subst scanLoop.simps) simp

lemma scanLoop_step:
  "Attempt (Backoff l) < maxScanRetries \<Longrightarrow> scanLoop list err l =
     (case Scan (Client l) of
        (items, Some e, c) \<Rightarrow> scanLoop list (Some e) (sleepBackoff (l\<lparr>Client := c\<rparr>))
      | (items, None, c) \<Rightarrow> (appendLeases items list (now l), None, l\<lparr>Client := c\<rparr>))"
  by (subst scanLoop.simps) simp

text \<open>
  A list without error comes from a scan that was served: it is the decoding of the table,
  stamped with the time of the return, and no sleep lies between the scan and the return.
\<close>

lemma scanLoop_None:
  "err \<noteq> None \<or> Attempt (Backoff l) < maxScanRetries \<Longrightarrow>
   scanLoop list err l = (list', None, l') \<Longrightarrow>
   \<exists>t. table (Client l) = Some t \<and> table (Client l') = Some t \<and>
       list' = appendLeases t list (now l')"
proof (induction list err l rule: scanLoop.induct)
  case (1 list err l)
  show ?case
  proof (cases "Attempt (Backoff l) < maxScanRetries")
    case False
    with "1.prems" show ?thesis by (simp add: scanLoop_done)
  next
    case True
    show ?thesis
    proof (cases "Client l" rule: Scan_cases)
      case (listed t c')
      with "1.prems"(2) True show ?thesis
        by (auto simp: scanLoop_step)
    next
      case (failed e c')
      with "1.prems"(2) True
      have "scanLoop list (Some e) (sleepBackoff (l\<lparr>Client := c'\<rparr>)) = (list', None, l')"
        by (simp add: scanLoop_step)
      from "1.IH" [OF True failed(1) [symmetric] refl refl _ this] failed(2) show ?thesis
        by (simp add: sleepBackoff_simps)
    qed
  qed
qed

lemma scanLoop_requests:
  "Attempt (Backoff l) \<le> maxScanRetries \<Longrightarrow>
   scanLoop list err l = (list', err', l') \<Longrightarrow>
   requests (Client l) \<le> requests (Client l') \<and>
   requests (Client l') \<le> requests (Client l) + (maxScanRetries - Attempt (Backoff l)) \<and>
   (err' \<noteq> None \<longrightarrow>
      requests (Client l') = requests (Client l) + (maxScanRetries - Attempt (Backoff l))) \<and>
   (Attempt (Backoff l) < maxScanRetries \<longrightarrow> requests (Client l) < requests (Client l'))"
proof (induction list err l rule: scanLoop.induct)
  case (1 list err l)
  show ?case
  proof (cases "Attempt (Backoff l) < maxScanRetries")
    case False
    with "1.prems" show ?thesis by (simp add: scanLoop_done)
  next
    case True
    show ?thesis
    proof (cases "Client l" rule: Scan_cases)
      case (listed t c')
      with "1.prems"(2) True show ?thesis
        by (auto simp: scanLoop_step)
    next
      case (failed e c')
      with "1.prems"(2) True
      have rec: "scanLoop list (Some e) (sleepBackoff (l\<lparr>Client := c'\<rparr>)) = (list', err', l')"
        by (simp add: scanLoop_step)
      have le: "Attempt (Backoff (sleepBackoff (l\<lparr>Client := c'\<rparr>))) \<le> maxScanRetries"
        using True by (simp add: sleepBackoff_simps)
      from "1.IH" [OF True failed(1) [symmetric] refl refl le rec] failed(3) True show ?thesis
        by (auto simp: sleepBackoff_simps)
    qed
  qed
qed

lemma appendLeases_map_filter:
  "appendLeases items list t =
     list @ List.map_filter
       (\<lambda>item. case UnmarshalMap item of Inl e \<Rightarrow> None
          | Inr lease \<Rightarrow> Some (lease\<lparr>lastRenewal := t\<rparr>)) items"
  by (induction items arbitrary: list) (auto split: sum.splits)

lemma ListLeases_None:
  assumes "Attempt (Backoff l) = 0" "ListLeases l = (list, None, l')"
  shows "\<exists>t. table (Client l) = Some t \<and> table (Client l') = Some t \<and>
           list = appendLeases t [] (now l')"
proof -
  obtain l1 where loop: "scanLoop [] None l = (list, None, l1)"
    and l': "l' = l1\<lparr>Backoff := Reset (Backoff l1)\<rparr>"
    using assms(2) by (auto simp: ListLeases_def split: prod.splits)
  have "Attempt (Backoff l) < maxScanRetries"
    using assms(1) by (simp add: maxScanRetries_def)
  from scanLoop_None [OF disjI2 [OF this] loop] l' show ?thesis
    by simp
qed

lemma ListLeases_served:
  assumes "Attempt (Backoff l) = 0" "faults (Client l) = []" "table (Client l) = Some t"
  shows "ListLeases l =
     (appendLeases t [] (now l), None,
      l\<lparr>Client := (Client l)\<lparr>requests := Suc (requests (Client l))\<rparr>,
        Backoff := Reset (Backoff l)\<rparr>)"
  using assms
  by (simp add: ListLeases_def scanLoop_step maxScanRetries_def Scan_def receive_served)

lemma ListLeases_requests:
  assumes "Attempt (Backoff l) = 0"
  shows "requests (Client l) <
           requests (Client (snd (snd (ListLeases l :: 'a Lease list \<times> _)))) \<and>
         requests (Client (snd (snd (ListLeases l :: 'a Lease list \<times> _)))) \<le>
           requests (Client l) + maxScanRetries \<and>
         (fst (snd (ListLeases l :: 'a Lease list \<times> _)) \<noteq> None \<longrightarrow>
            requests (Client (snd (snd (ListLeases l :: 'a Lease list \<times> _)))) =
              requests (Client l) + maxScanRetries)"
proof -
  obtain list err l1 where loop: "scanLoop ([] :: 'a Lease list) None l = (list, err, l1)"
    by (cases "scanLoop ([] :: 'a Lease list) None l") auto
  have "Attempt (Backoff l) \<le> maxScanRetries"
    using assms by simp
  from scanLoop_requests [OF this loop] assms loop show ?thesis
    by (simp add: ListLeases_def maxScanRetries_def)
qed

lemma lister_facts:
  "Attempt (Backoff lister) = 0" "faults (Client lister) = []"
  "table (Client lister) = Some [itemA, oddItem]" "now lister = 1000"
  "stored lister ''B'' = Some oddItem"
  by (simp_all add: lister_def worker1_def Attempt_def stored_def lookup_def keyOf_def
      itemA_def oddItem_def LeaseKeyKey_def LeaseOwnerKey_def LeaseCounterKey_def)

lemma decode_items:
  "UnmarshalMap itemA = Inr (heldLease :: unit Lease)"
  "(UnmarshalMap oddItem :: error + unit Lease) = Inl UnmarshalTypeError"
  by (simp_all add: UnmarshalMap_def decodeString_def decodeInt_def itemA_def oddItem_def
      heldLease_def LeaseKeyKey_def LeaseOwnerKey_def LeaseCounterKey_def)

lemma list_lister:
  "(ListLeases lister :: unit Lease list \<times> error option \<times> LeaseManager) =
     ([heldLease\<lparr>lastRenewal := 1000\<rparr>], None,
      lister\<lparr>Client := (Client lister)\<lparr>requests := Suc (requests (Client lister))\<rparr>,
        Backoff := Reset (Backoff lister)\<rparr>)"
  by (simp add: ListLeases_served [OF lister_facts(1,2,3)] decode_items lister_facts)

subsection \<open>CreateLeaseTable\<close>

lemma CreateTable_requests: "CreateTable c = (r, c') \<Longrightarrow> requests c' = Suc (requests c)"
  using requests_CreateTable [of c] by simp

lemma createTableLoop_done:
  "\<not> Attempt (Backoff l) < maxCreateRetries \<Longrightarrow> createTableLoop err l = (err, l)"
  by (subst createTableLoop.simps) simp

lemma createTableLoop_step:
  "Attempt (Backoff l) < maxCreateRetries \<Longrightarrow> createTableLoop err l =
     (case CreateTable (Client l) of
           (None, c) \<Rightarrow> (None, l\<lparr>Client := c\<rparr>)
         | (Some e, c) \<Rightarrow>
             if (case e of RequestFailure code \<Rightarrow> code = AlreadyExist | OtherError msg \<Rightarrow> False)
             then (None, l\<lparr>Client := c\<rparr>)
             else createTableLoop (Some e) (sleepBackoff (l\<lparr>Client := c\<rparr>)))"
  by (subst createTableLoop.simps) simp

lemma createTableLoop_requests:
  "Attempt (Backoff l) \<le> maxCreateRetries \<Longrightarrow>
   createTableLoop err l = (err', l') \<Longrightarrow>
   requests (Client l) \<le> requests (Client l') \<and>
   requests (Client l') \<le> requests (Client l) + (maxCreateRetries - Attempt (Backoff l)) \<and>
   (err' \<noteq> None \<longrightarrow>
      requests (Client l') = requests (Client l) + (maxCreateRetries - Attempt (Backoff l))) \<and>
   (Attempt (Backoff l) < maxCreateRetries \<longrightarrow> requests (Client l) < requests (Client l'))"
proof (induction err l rule: createTableLoop.induct)
  case (1 err l)
  show ?case
  proof (cases "Attempt (Backoff l) < maxCreateRetries")
    case False
    with "1.prems" show ?thesis by (simp add: createTableLoop_done)
  next
    case True
    obtain r c where call: "CreateTable (Client l) = (r, c)"
      by (cases "CreateTable (Client l)")
    note req = CreateTable_requests [OF call]
    show ?thesis
    proof (cases "\<exists>e. r = Some e \<and>
        \<not> (case e of RequestFailure code \<Rightarrow> code = AlreadyExist | OtherError msg \<Rightarrow> False)")
      case False
      with "1.prems"(2) True call req show ?thesis
        by (cases r) (auto simp: createTableLoop_step)
    next
      case retry: True
      then obtain e where e: "r = Some e"
        "\<not> (case e of RequestFailure code \<Rightarrow> code = AlreadyExist | OtherError msg \<Rightarrow> False)"
        by blast
      with "1.prems"(2) True call
      have rec: "createTableLoop (Some e) (sleepBackoff (l\<lparr>Client := c\<rparr>)) = (err', l')"
        by (simp add: createTableLoop_step)
      have le: "Attempt (Backoff (sleepBackoff (l\<lparr>Client := c\<rparr>))) \<le> maxCreateRetries"
        using True by (simp add: sleepBackoff_simps)
      from "1.IH" [OF True call [symmetric] e(1) e(2) le rec] req True show ?thesis
        by (auto simp: sleepBackoff_simps)
    qed
  qed
qed

lemma CreateLeaseTable_requests:
  assumes "Attempt (Backoff l) = 0"
  shows "requests (Client l) < requests (Client (snd (CreateLeaseTable l))) \<and>
         requests (Client (snd (CreateLeaseTable l))) \<le> requests (Client l) + maxCreateRetries \<and>
         (fst (CreateLeaseTable l) \<noteq> None \<longrightarrow>
            requests (Client (snd (CreateLeaseTable l))) = requests (Client l) + maxCreateRetries)"
proof -
  obtain err l1 where loop: "createTableLoop None l = (err, l1)"
    by (cases "createTableLoop None l") auto
  have "Attempt (Backoff l) \<le> maxCreateRetries"
    using assms by simp
  from createTableLoop_requests [OF this loop] assms loop show ?thesis
    by (simp add: CreateLeaseTable_def maxCreateRetries_def)
qed

lemma DeleteItem_requests: "DeleteItem inp c = (r, c') \<Longrightarrow> requests c' = Suc (requests c)"
  using requests_DeleteItem [of inp c] by simp

lemma DeleteLease_requests:
  assumes "Attempt (Backoff l) = 0"
  shows "requests (Client l) < requests (Client (snd (DeleteLease lease l))) \<and>
         requests (Client (snd (DeleteLease lease l))) \<le> requests (Client l) + maxDeleteRetries \<and>
         (fst (DeleteLease lease l) \<noteq> None \<longrightarrow>
            requests (Client (snd (DeleteLease lease l))) = requests (Client l) + maxDeleteRetries)"
proof -
  obtain r1 c1 where first: "DeleteItem (deleteInput lease) (Client l) = (r1, c1)"
    by (cases "DeleteItem (deleteInput lease) (Client l)")
  obtain r2 c2 where second: "DeleteItem (deleteInput lease) c1 = (r2, c2)"
    by (cases "DeleteItem (deleteInput lease) c1")
  from DeleteItem_requests [OF first] DeleteItem_requests [OF second] first second show ?thesis
    by (simp add: DeleteLease_def deleteLoop_fresh [OF assms] sleepBackoff_simps
        maxDeleteRetries_def split: option.splits)
qed

lemma updateLease_requests:
  assumes "Attempt (Backoff l) = 0"
  shows "requests (Client l) < requests (Client (snd (updateLease u c l))) \<and>
         requests (Client (snd (updateLease u c l))) \<le> requests (Client l) + maxUpdateRetries \<and>
         (fst (updateLease u c l) \<noteq> None \<longrightarrow>
            requests (Client (snd (updateLease u c l))) = requests (Client l) + maxUpdateRetries)"
proof (cases "updateLease u c l")
  case (Pair r l')
  show ?thesis
  proof (cases r)
    case None
    from updateLease_None [OF assms Pair [unfolded None]] Pair None show ?thesis
      by (auto simp: maxUpdateRetries_def)
  next
    case (Some e)
    from updateLease_Some [OF assms Pair [unfolded Some]] Pair Some show ?thesis
      by (auto simp: maxUpdateRetries_def)
  qed
qed

lemma backoff_fresh_after:
  "Attempt (Backoff (snd (CreateLeaseTable l))) = 0"
  "Attempt (Backoff (snd (updateLease u c l))) = 0"
  "Attempt (Backoff (snd (snd (ListLeases l)))) = 0"
  "Attempt (Backoff (snd (DeleteLease lease l))) = 0"
  "Backoff (snd (CreateLease lease l)) = Backoff l"
  by (simp_all add: CreateLeaseTable_def updateLease_def ListLeases_def DeleteLease_def
      CreateLease_def Reset_def Attempt_def split: prod.splits)

lemma attempts_bounds:
  assumes "requests (Client l) < requests (Client l')"
    "requests (Client l') \<le> requests (Client l) + cap"
    "err \<noteq> None \<longrightarrow> requests (Client l') = requests (Client l) + cap"
  shows "1 \<le> attempts l l' \<and> attempts l l' \<le> cap \<and> (err \<noteq> None \<longrightarrow> attempts l l' = cap)"
  using assms by (auto simp: attempts_def)

lemma flaky_facts:
  "Attempt (Backoff flaky) = 0" "faults (Client flaky) = [Some timeout]"
  "table (Client flaky) = Some [itemA]" "requests (Client flaky) = 0"
  "WorkerId flaky = ''w1''"
  by (simp_all add: flaky_def worker1_def Attempt_def)

lemma renew_flaky:
  "fst (RenewLease heldLease flaky) = None \<and>
   requests (Client (snd (snd (RenewLease heldLease flaky)))) = 2"
proof -
  let ?inp = "updateInput (heldLease\<lparr>Counter := Counter heldLease + 1\<rparr>) heldLease"
  let ?c1 = "(Client flaky)\<lparr>faults := [], requests := 1\<rparr>"
  have first: "UpdateItem ?inp (Client flaky) = (Some timeout, ?c1)"
    by (simp add: UpdateItem_def receive_def flaky_facts)
  have met: "conditionMet ?inp (case lookup ''A'' [itemA] of None \<Rightarrow> [] | Some item \<Rightarrow> item)"
    by (simp add: conditionMet_updateInput lease_facts lookup_def keyOf_def itemA_def
        word_sless_alt LeaseKeyKey_def LeaseOwnerKey_def LeaseCounterKey_def)
  have second: "fst (UpdateItem ?inp ?c1) = None \<and> requests (snd (UpdateItem ?inp ?c1)) = 2"
    using met
    by (simp add: UpdateItem_served [where t = "[itemA]" and k = "''A''"] flaky_facts
        keyOf_updateInput validCondition_updateInput validUpdate_updateInput lease_facts)
  show ?thesis
    using first second
    by (auto simp: operations_unfold updateLease_def updateLoop_fresh flaky_facts
        sleepBackoff_simps split: prod.splits option.splits)
qed

lemma absent_facts:
  "Key absentLease = ''Z''" "stored worker1 ''Z'' = None"
  by (simp_all add: absentLease_def NewLease_def worker1_def stored_def lookup_def keyOf_def
      itemA_def LeaseKeyKey_def LeaseOwnerKey_def LeaseCounterKey_def)

lemma decode_created: "UnmarshalMap createdItem = Inr newLease"
  by (simp add: UnmarshalMap_def decodeString_def decodeInt_def createdItem_def newLease_def
      NewLease_def LeaseKeyKey_def LeaseOwnerKey_def LeaseCounterKey_def)

subsection \<open>Failed requests and the loops\<close>

lemma served_id: "faults (Client l) = [] \<Longrightarrow> served l = l"
  by (simp add: served_def)

lemma served_simps:
  "faults (Client (served l)) = []" "table (Client (served l)) = table (Client l)"
  "Attempt (Backoff (served l)) = Attempt (Backoff l)" "WorkerId (served l) = WorkerId l"
  by (simp_all add: served_def)

lemma afterFailures_simps:
  "faults (Client (afterFailures k rest l)) = rest"
  "table (Client (afterFailures k rest l)) = table (Client l)"
  "requests (Client (afterFailures k rest l)) = requests (Client l) + k"
  "Attempt (Backoff (afterFailures k rest l)) = Attempt (Backoff l) + k"
  "ForAttempt (Backoff (afterFailures k rest l)) = ForAttempt (Backoff l)"
  "WorkerId (afterFailures k rest l) = WorkerId l"
  "now (afterFailures k rest l) =
     now l + (\<Sum>i<k. ForAttempt (Backoff l) (attempt (Backoff l) + i))"
  by (simp_all add: afterFailures_def Attempt_def)

lemma afterFailures_one:
  "sleepBackoff (l\<lparr>Client := (Client l)\<lparr>faults := fs, requests := Suc (requests (Client l))\<rparr>\<rparr>) =
     afterFailures (Suc 0) fs l"
  by (simp add: sleepBackoff_def Duration_def afterFailures_def)

lemma afterFailures_Suc:
  "afterFailures k rest (afterFailures (Suc 0) fs l) = afterFailures (Suc k) rest l"
proof -
  have "(\<Sum>i<Suc k. f (a + i)) = f a + (\<Sum>i<k. f (Suc (a + i)))" for f :: "nat \<Rightarrow> nat" and a
    by (simp add: sum.lessThan_Suc_shift del: sum.lessThan_Suc)
  then show ?thesis
    by (simp add: afterFailures_def del: sum.lessThan_Suc)
qed

text \<open>
  A loop that, when the store fails a request with a retried error, goes on from the manager
  after one failure, goes on from the manager after as many failures as the store has in store,
  as long as the cap allows.
\<close>

lemma skip_failures:
  fixes loop :: "error option \<Rightarrow> LeaseManager \<Rightarrow> 'r"
  assumes step: "\<And>err l e fs. Attempt (Backoff l) < cap \<Longrightarrow> faults (Client l) = Some e # fs \<Longrightarrow>
      retried e \<Longrightarrow> loop err l = loop (Some e) (afterFailures (Suc 0) fs l)"
  shows "es \<noteq> [] \<Longrightarrow> list_all retried es \<Longrightarrow> faults (Client l) = map Some es @ rest \<Longrightarrow>
     Attempt (Backoff l) + length es \<le> cap \<Longrightarrow>
     loop err l = loop (Some (last es)) (afterFailures (length es) rest l)"
proof (induction es arbitrary: l err rule: list_nonempty_induct)
  case (single e)
  then show ?case by (simp add: step)
next
  case (cons e es)
  from cons.prems have first:
    "loop err l = loop (Some e) (afterFailures (Suc 0) (map Some es @ rest) l)"
    by (intro step) simp_all
  have "loop (Some e) (afterFailures (Suc 0) (map Some es @ rest) l) =
      loop (Some (last es))
        (afterFailures (length es) rest (afterFailures (Suc 0) (map Some es @ rest) l))"
    using cons.prems by (intro cons.IH) (simp_all add: afterFailures_simps)
  with first cons.hyps show ?case
    by (simp add: afterFailures_Suc)
qed


subsection \<open>A request that the store fails\<close>

lemma receive_fault:
  "faults c = Some e # fs \<Longrightarrow>
   receive c = (Some e, c\<lparr>faults := fs, requests := Suc (requests c)\<rparr>)"
  by (simp add: receive_def)

lemma calls_fault:
  assumes "faults c = Some e # fs"
  shows "UpdateItem inp c = (Some e, c\<lparr>faults := fs, requests := Suc (requests c)\<rparr>)"
    and "DeleteItem dinp c = (Some e, c\<lparr>faults := fs, requests := Suc (requests c)\<rparr>)"
    and "PutItem item c = (Some e, c\<lparr>faults := fs, requests := Suc (requests c)\<rparr>)"
    and "CreateTable c = (Some e, c\<lparr>faults := fs, requests := Suc (requests c)\<rparr>)"
    and "Scan c = ([], Some e, c\<lparr>faults := fs, requests := Suc (requests c)\<rparr>)"
  by (simp_all add: UpdateItem_def DeleteItem_def PutItem_def CreateTable_def Scan_def
      receive_fault [OF assms])

lemma loops_fault:
  assumes "faults (Client l) = Some e # fs"
  shows "Attempt (Backoff l) < maxUpdateRetries \<Longrightarrow>
           updateLoop inp err l = updateLoop inp (Some e) (afterFailures (Suc 0) fs l)"
    and "Attempt (Backoff l) < maxDeleteRetries \<Longrightarrow>
           deleteLoop lease err l = deleteLoop lease (Some e) (afterFailures (Suc 0) fs l)"
    and "Attempt (Backoff l) < maxScanRetries \<Longrightarrow>
           scanLoop list err l = scanLoop list (Some e) (afterFailures (Suc 0) fs l)"
    and "Attempt (Backoff l) < maxCreateRetries \<Longrightarrow> e \<noteq> RequestFailure AlreadyExist \<Longrightarrow>
           createTableLoop err l = createTableLoop (Some e) (afterFailures (Suc 0) fs l)"
  by (auto simp: updateLoop_step deleteLoop_step scanLoop_step createTableLoop_step
      calls_fault [OF assms] afterFailures_one split: error.splits)

lemma loops_skip:
  assumes "es \<noteq> []" "faults (Client l) = map Some es @ rest"
  shows "Attempt (Backoff l) + length es \<le> maxUpdateRetries \<Longrightarrow>
           updateLoop inp err l =
             updateLoop inp (Some (last es)) (afterFailures (length es) rest l)"
    and "Attempt (Backoff l) + length es \<le> maxDeleteRetries \<Longrightarrow>
           deleteLoop lease err l =
             deleteLoop lease (Some (last es)) (afterFailures (length es) rest l)"
    and "Attempt (Backoff l) + length es \<le> maxScanRetries \<Longrightarrow>
           scanLoop list err l =
             scanLoop list (Some (last es)) (afterFailures (length es) rest l)"
    and "Attempt (Backoff l) + length es \<le> maxCreateRetries \<Longrightarrow>
         list_all (\<lambda>e. e \<noteq> RequestFailure AlreadyExist) es \<Longrightarrow>
           createTableLoop err l =
             createTableLoop (Some (last es)) (afterFailures (length es) rest l)"
proof -
  have all: "list_all (\<lambda>e. True) es"
    by (simp add: list_all_iff)
  show "Attempt (Backoff l) + length es \<le> maxUpdateRetries \<Longrightarrow>
           updateLoop inp err l =
             updateLoop inp (Some (last es)) (afterFailures (length es) rest l)"
    by (rule skip_failures [where loop = "updateLoop inp" and retried = "\<lambda>e. True",
          OF _ assms(1) all assms(2)]) (simp_all add: loops_fault)
  show "Attempt (Backoff l) + length es \<le> maxDeleteRetries \<Longrightarrow>
           deleteLoop lease err l =
             deleteLoop lease (Some (last es)) (afterFailures (length es) rest l)"
    by (rule skip_failures [where loop = "deleteLoop lease" and retried = "\<lambda>e. True",
          OF _ assms(1) all assms(2)]) (simp_all add: loops_fault)
  show "Attempt (Backoff l) + length es \<le> maxScanRetries \<Longrightarrow>
           scanLoop list err l =
             scanLoop list (Some (last es)) (afterFailures (length es) rest l)"
    by (rule skip_failures [where loop = "scanLoop list" and retried = "\<lambda>e. True",
          OF _ assms(1) all assms(2)]) (simp_all add: loops_fault)
  show "Attempt (Backoff l) + length es \<le> maxCreateRetries \<Longrightarrow>
         list_all (\<lambda>e. e \<noteq> RequestFailure AlreadyExist) es \<Longrightarrow>
           createTableLoop err l =
             createTableLoop (Some (last es)) (afterFailures (length es) rest l)"
    by (rule skip_failures [where loop = createTableLoop
          and retried = "\<lambda>e. e \<noteq> RequestFailure AlreadyExist", OF _ assms(1) _ assms(2)])
      (simp_all add: loops_fault)
qed


lemma afterFailures_0: "faults (Client l) = rest \<Longrightarrow> afterFailures 0 rest l = l"
  by (auto simp: afterFailures_def)

lemma loops_err:
  "Attempt (Backoff l) < maxUpdateRetries \<Longrightarrow> updateLoop inp err l = updateLoop inp None l"
  "Attempt (Backoff l) < maxDeleteRetries \<Longrightarrow> deleteLoop lease err l = deleteLoop lease None l"
  "Attempt (Backoff l) < maxScanRetries \<Longrightarrow> scanLoop list err l = scanLoop list None l"
  "Attempt (Backoff l) < maxCreateRetries \<Longrightarrow> createTableLoop err l = createTableLoop None l"
  by (simp_all add: updateLoop_step deleteLoop_step scanLoop_step createTableLoop_step)

text \<open>Fewer failures than the cap: the loop goes on, with attempts left, at a store that serves.\<close>

lemma resume_after:
  fixes loop :: "error option \<Rightarrow> LeaseManager \<Rightarrow> 'r"
  assumes skip: "es \<noteq> [] \<Longrightarrow> loop err l = loop (Some (last es)) m"
    and same: "es = [] \<Longrightarrow> m = l"
    and err: "\<And>e. loop e m = loop None m"
  shows "loop err l = loop None m"
proof (cases "es = []")
  case True
  with same err [of err] show ?thesis by simp
next
  case False
  with skip err [of "Some (last es)"] show ?thesis by simp
qed

lemma loops_resume:
  assumes "faults (Client l) = map Some es"
  shows "Attempt (Backoff l) + length es < maxUpdateRetries \<Longrightarrow>
           updateLoop inp err l = updateLoop inp None (afterFailures (length es) [] l)"
    and "Attempt (Backoff l) + length es < maxDeleteRetries \<Longrightarrow>
           deleteLoop lease err l = deleteLoop lease None (afterFailures (length es) [] l)"
    and "Attempt (Backoff l) + length es < maxScanRetries \<Longrightarrow>
           scanLoop list err l = scanLoop list None (afterFailures (length es) [] l)"
    and "Attempt (Backoff l) + length es < maxCreateRetries \<Longrightarrow>
         list_all (\<lambda>e. e \<noteq> RequestFailure AlreadyExist) es \<Longrightarrow>
           createTableLoop err l = createTableLoop None (afterFailures (length es) [] l)"
proof -
  have f: "faults (Client l) = map Some es @ []"
    using assms by simp
  have same: "es = [] \<Longrightarrow> afterFailures (length es) [] l = l"
    using assms by (simp add: afterFailures_0)
  show "updateLoop inp err l = updateLoop inp None (afterFailures (length es) [] l)"
    if "Attempt (Backoff l) + length es < maxUpdateRetries"
  proof (rule resume_after [where es = es, OF _ same])
    show "updateLoop inp err l =
        updateLoop inp (Some (last es)) (afterFailures (length es) [] l)" if "es \<noteq> []"
      using loops_skip(1) [OF that f] \<open>Attempt (Backoff l) + length es < maxUpdateRetries\<close>
      by simp
    show "updateLoop inp e (afterFailures (length es) [] l) =
        updateLoop inp None (afterFailures (length es) [] l)" for e
      using that by (intro loops_err) (simp add: afterFailures_simps)
  qed
  show "deleteLoop lease err l = deleteLoop lease None (afterFailures (length es) [] l)"
    if "Attempt (Backoff l) + length es < maxDeleteRetries"
  proof (rule resume_after [where es = es, OF _ same])
    show "deleteLoop lease err l =
        deleteLoop lease (Some (last es)) (afterFailures (length es) [] l)" if "es \<noteq> []"
      using loops_skip(2) [OF that f] \<open>Attempt (Backoff l) + length es < maxDeleteRetries\<close>
      by simp
    show "deleteLoop lease e (afterFailures (length es) [] l) =
        deleteLoop lease None (afterFailures (length es) [] l)" for e
      using that by (intro loops_err) (simp add: afterFailures_simps)
  qed
  show "scanLoop list err l = scanLoop list None (afterFailures (length es) [] l)"
    if "Attempt (Backoff l) + length es < maxScanRetries"
  proof (rule resume_after [where es = es, OF _ same])
    show "scanLoop list err l =
        scanLoop list (Some (last es)) (afterFailures (length es) [] l)" if "es \<noteq> []"
      using loops_skip(3) [OF that f] \<open>Attempt (Backoff l) + length es < maxScanRetries\<close>
      by simp
    show "scanLoop list e (afterFailures (length es) [] l) =
        scanLoop list None (afterFailures (length es) [] l)" for e
      using that by (intro loops_err) (simp add: afterFailures_simps)
  qed
  show "createTableLoop err l = createTableLoop None (afterFailures (length es) [] l)"
    if "Attempt (Backoff l) + length es < maxCreateRetries"
      and "list_all (\<lambda>e. e \<noteq> RequestFailure AlreadyExist) es"
  proof (rule resume_after [where es = es, OF _ same])
    show "createTableLoop err l =
        createTableLoop (Some (last es)) (afterFailures (length es) [] l)" if "es \<noteq> []"
      using loops_skip(4) [OF that f] \<open>Attempt (Backoff l) + length es < maxCreateRetries\<close>
        \<open>list_all (\<lambda>e. e \<noteq> RequestFailure AlreadyExist) es\<close>
      by simp
    show "createTableLoop e (afterFailures (length es) [] l) =
        createTableLoop None (afterFailures (length es) [] l)" for e
      using that(1) by (intro loops_err) (simp add: afterFailures_simps)
  qed
qed

text \<open>As many failures as the cap, or more: the loop ends with the error of the last attempt.\<close>

lemma loops_exhausted:
  assumes "Attempt (Backoff l) = 0" "faults (Client l) = map Some es"
  shows "maxUpdateRetries \<le> length es \<Longrightarrow>
           updateLoop inp err l =
             (Some (es ! (maxUpdateRetries - 1)),
              afterFailures maxUpdateRetries (map Some (drop maxUpdateRetries es)) l)"
    and "maxDeleteRetries \<le> length es \<Longrightarrow>
           deleteLoop lease err l =
             (Some (es ! (maxDeleteRetries - 1)),
              afterFailures maxDeleteRetries (map Some (drop maxDeleteRetries es)) l)"
    and "maxScanRetries \<le> length es \<Longrightarrow>
           scanLoop list err l =
             (list, Some (es ! (maxScanRetries - 1)),
              afterFailures maxScanRetries (map Some (drop maxScanRetries es)) l)"
    and "maxCreateRetries \<le> length es \<Longrightarrow>
         list_all (\<lambda>e. e \<noteq> RequestFailure AlreadyExist) es \<Longrightarrow>
           createTableLoop err l =
             (Some (es ! (maxCreateRetries - 1)),
              afterFailures maxCreateRetries (map Some (drop maxCreateRetries es)) l)"
proof -
  have prefix: "take n es \<noteq> [] \<and> length (take n es) = n \<and> last (take n es) = es ! (n - 1) \<and>
      faults (Client l) = map Some (take n es) @ map Some (drop n es) \<and>
      Attempt (Backoff l) + length (take n es) \<le> n"
    if "0 < n" "n \<le> length es" for n
  proof -
    from that have ne: "take n es \<noteq> []"
      by (cases es) auto
    moreover from that have len: "length (take n es) = n"
      by simp
    moreover from ne len that have "last (take n es) = es ! (n - 1)"
      by (simp add: last_conv_nth)
    moreover have "faults (Client l) = map Some (take n es) @ map Some (drop n es)"
      using assms(2) by (simp flip: map_append)
    ultimately show ?thesis
      using assms(1) by simp
  qed
  show "updateLoop inp err l =
          (Some (es ! (maxUpdateRetries - 1)),
           afterFailures maxUpdateRetries (map Some (drop maxUpdateRetries es)) l)"
    if "maxUpdateRetries \<le> length es"
  proof -
    from prefix [OF _ that] have p: "take maxUpdateRetries es \<noteq> []"
      "length (take maxUpdateRetries es) = maxUpdateRetries"
      "last (take maxUpdateRetries es) = es ! (maxUpdateRetries - 1)"
      "faults (Client l) =
         map Some (take maxUpdateRetries es) @ map Some (drop maxUpdateRetries es)"
      "Attempt (Backoff l) + length (take maxUpdateRetries es) \<le> maxUpdateRetries"
      by (simp_all add: maxUpdateRetries_def)
    have "\<not> Attempt (Backoff (afterFailures maxUpdateRetries
        (map Some (drop maxUpdateRetries es)) l)) < maxUpdateRetries"
      by (simp add: afterFailures_simps)
    from updateLoop_done [OF this] loops_skip(1) [OF p(1) p(4) p(5), of inp err] show ?thesis
      unfolding p(2) p(3) by simp
  qed
  show "deleteLoop lease err l =
          (Some (es ! (maxDeleteRetries - 1)),
           afterFailures maxDeleteRetries (map Some (drop maxDeleteRetries es)) l)"
    if "maxDeleteRetries \<le> length es"
  proof -
    from prefix [OF _ that] have p: "take maxDeleteRetries es \<noteq> []"
      "length (take maxDeleteRetries es) = maxDeleteRetries"
      "last (take maxDeleteRetries es) = es ! (maxDeleteRetries - 1)"
      "faults (Client l) =
         map Some (take maxDeleteRetries es) @ map Some (drop maxDeleteRetries es)"
      "Attempt (Backoff l) + length (take maxDeleteRetries es) \<le> maxDeleteRetries"
      by (simp_all add: maxDeleteRetries_def)
    have "\<not> Attempt (Backoff (afterFailures maxDeleteRetries
        (map Some (drop maxDeleteRetries es)) l)) < maxDeleteRetries"
      by (simp add: afterFailures_simps)
    from deleteLoop_done [OF this] loops_skip(2) [OF p(1) p(4) p(5), of lease err] show ?thesis
      unfolding p(2) p(3) by simp
  qed
  show "scanLoop list err l =
          (list, Some (es ! (maxScanRetries - 1)),
           afterFailures maxScanRetries (map Some (drop maxScanRetries es)) l)"
    if "maxScanRetries \<le> length es"
  proof -
    from prefix [OF _ that] have p: "take maxScanRetries es \<noteq> []"
      "length (take maxScanRetries es) = maxScanRetries"
      "last (take maxScanRetries es) = es ! (maxScanRetries - 1)"
      "faults (Client l) =
         map Some (take maxScanRetries es) @ map Some (drop maxScanRetries es)"
      "Attempt (Backoff l) + length (take maxScanRetries es) \<le> maxScanRetries"
      by (simp_all add: maxScanRetries_def)
    have "\<not> Attempt (Backoff (afterFailures maxScanRetries
        (map Some (drop maxScanRetries es)) l)) < maxScanRetries"
      by (simp add: afterFailures_simps)
    from scanLoop_done [OF this] loops_skip(3) [OF p(1) p(4) p(5), of list err] show ?thesis
      unfolding p(2) p(3) by simp
  qed
  show "createTableLoop err l =
          (Some (es ! (maxCreateRetries - 1)),
           afterFailures maxCreateRetries (map Some (drop maxCreateRetries es)) l)"
    if "maxCreateRetries \<le> length es"
      and all: "list_all (\<lambda>e. e \<noteq> RequestFailure AlreadyExist) es"
  proof -
    from prefix [OF _ that(1)] have p: "take maxCreateRetries es \<noteq> []"
      "length (take maxCreateRetries es) = maxCreateRetries"
      "last (take maxCreateRetries es) = es ! (maxCreateRetries - 1)"
      "faults (Client l) =
         map Some (take maxCreateRetries es) @ map Some (drop maxCreateRetries es)"
      "Attempt (Backoff l) + length (take maxCreateRetries es) \<le> maxCreateRetries"
      by (simp_all add: maxCreateRetries_def)
    have q: "list_all (\<lambda>e. e \<noteq> RequestFailure AlreadyExist) (take maxCreateRetries es)"
      using all by (auto simp: list_all_iff dest: in_set_takeD)
    have "\<not> Attempt (Backoff (afterFailures maxCreateRetries
        (map Some (drop maxCreateRetries es)) l)) < maxCreateRetries"
      by (simp add: afterFailures_simps)
    from createTableLoop_done [OF this] loops_skip(4) [OF p(1) p(4) p(5) q, of err] show ?thesis
      unfolding p(2) p(3) by simp
  qed
qed

subsection \<open>One served request at the end of a loop\<close>

lemma updateLoop_last:
  assumes "Attempt (Backoff l) < maxUpdateRetries" "faults (Client l) = []"
    "table (Client l) = Some t" "Key u \<noteq> []"
    "conditionMet (updateInput u c) (case lookup (Key u) t of None \<Rightarrow> [] | Some i \<Rightarrow> i)"
  shows "updateLoop (updateInput u c) err l =
     (None, l\<lparr>Client := (Client l)\<lparr>requests := Suc (requests (Client l)),
         table := Some (put
            (applySet (UpdateExpression (updateInput u c))
               (ExpressionAttributeValues (updateInput u c))
               (case lookup (Key u) t of None \<Rightarrow> [(LeaseKeyKey, S (Key u))] | Some i \<Rightarrow> i)) t)\<rparr>\<rparr>)"
proof -
  have k: "keyOf (reqKey (updateInput u c)) = Some (Key u)"
    using assms(4) by (simp add: keyOf_updateInput)
  have "UpdateItem (updateInput u c) (Client l) =
     (None, (Client l)\<lparr>requests := Suc (requests (Client l)),
         table := Some (put
            (applySet (UpdateExpression (updateInput u c))
               (ExpressionAttributeValues (updateInput u c))
               (case lookup (Key u) t of None \<Rightarrow> reqKey (updateInput u c) | Some i \<Rightarrow> i)) t)\<rparr>)"
    using assms(5)
    by (simp add: UpdateItem_served [OF assms(2,3) k validCondition_updateInput
          validUpdate_updateInput])
  then show ?thesis
    using assms(1) by (simp add: updateLoop_step reqKey_updateInput cong: option.case_cong)
qed

lemma deleteLoop_last:
  assumes "Attempt (Backoff l) < maxDeleteRetries" "faults (Client l) = []"
    "table (Client l) = Some t" "Key lease \<noteq> []"
    "conditionMet (deleteInput lease)
       (case lookup (Key lease) t of None \<Rightarrow> [] | Some i \<Rightarrow> i)"
  shows "deleteLoop lease err l =
     (None, l\<lparr>Client := (Client l)\<lparr>requests := Suc (requests (Client l)),
         table := Some (remove (Key lease) t)\<rparr>\<rparr>)"
  using assms
  by (simp add: deleteLoop_step DeleteItem_served [where t = t and k = "Key lease"]
      keyOf_deleteInput validCondition_deleteInput)

lemma scanLoop_last:
  assumes "Attempt (Backoff l) < maxScanRetries" "faults (Client l) = []"
    "table (Client l) = Some t"
  shows "scanLoop list err l =
     (appendLeases t list (now l), None,
      l\<lparr>Client := (Client l)\<lparr>requests := Suc (requests (Client l))\<rparr>\<rparr>)"
  using assms by (simp add: scanLoop_step Scan_def receive_served)

lemma createTableLoop_last:
  assumes "Attempt (Backoff l) < maxCreateRetries" "faults (Client l) = []"
  shows "fst (createTableLoop err l) = None \<and>
         requests (Client (snd (createTableLoop err l))) = Suc (requests (Client l)) \<and>
         table (Client (snd (createTableLoop err l))) =
           Some (case table (Client l) of None \<Rightarrow> [] | Some t \<Rightarrow> t) \<and>
         now (snd (createTableLoop err l)) = now l"
  using assms
  by (simp add: createTableLoop_step CreateTable_def receive_served split: option.splits)

lemma DeleteItem_None:
  assumes "DeleteItem inp c = (None, c')"
  shows "\<exists>t k. table c = Some t \<and> keyOf (reqKey inp) = Some k \<and>
    conditionMet inp (case lookup k t of None \<Rightarrow> [] | Some item \<Rightarrow> item) \<and>
    table c' = Some (remove k t)"
proof (cases c rule: receive_cases)
  case (served c1)
  from assms served(1) obtain k where k: "keyOf (reqKey inp) = Some k"
    by (cases "keyOf (reqKey inp)") (auto simp: DeleteItem_def)
  from assms served(1) k have valid: "validCondition inp"
    by (auto simp: DeleteItem_def split: if_splits)
  from assms served k valid obtain t where t: "table c = Some t"
    by (cases "table c") (auto simp: DeleteItem_def)
  from assms served k valid t show ?thesis
    by (auto simp: DeleteItem_def split: if_splits)
next
  case (failed e c1)
  with assms show ?thesis by (simp add: DeleteItem_def)
qed

lemma DeleteItem_Some:
  assumes "DeleteItem inp c = (Some e, c')"
  shows "table c' = table c"
  using assms
  by (cases c rule: receive_cases)
    (auto simp: DeleteItem_def split: option.splits if_splits)

lemma DeleteLease_None:
  assumes "Attempt (Backoff l) = 0" "fst (DeleteLease lease l) = None"
  shows "\<exists>t. table (Client l) = Some t \<and> Key lease \<noteq> [] \<and>
     conditionMet (deleteInput lease)
       (case lookup (Key lease) t of None \<Rightarrow> [] | Some i \<Rightarrow> i) \<and>
     table (Client (snd (DeleteLease lease l))) = Some (remove (Key lease) t)"
proof -
  obtain r1 c1 where first: "DeleteItem (deleteInput lease) (Client l) = (r1, c1)"
    by (cases "DeleteItem (deleteInput lease) (Client l)")
  obtain r2 c2 where second: "DeleteItem (deleteInput lease) c1 = (r2, c2)"
    by (cases "DeleteItem (deleteInput lease) c1")
  show ?thesis
  proof (cases r1)
    case None
    from DeleteItem_None [OF first [unfolded None]] assms first None show ?thesis
      by (auto simp: DeleteLease_def deleteLoop_fresh keyOf_deleteInput split: if_splits)
  next
    case (Some e1)
    with assms first second have r2: "r2 = None"
      by (cases r2) (auto simp: DeleteLease_def deleteLoop_fresh)
    from DeleteItem_None [OF second [unfolded r2]] DeleteItem_Some [OF first [unfolded Some]]
      assms first Some second r2
    show ?thesis
      by (auto simp: DeleteLease_def deleteLoop_fresh keyOf_deleteInput sleepBackoff_simps
          split: if_splits)
  qed
qed

subsection \<open>The operations under failed requests\<close>

lemma updateLease_retries:
  assumes a: "Attempt (Backoff l) = 0" and f: "faults (Client l) = map Some es"
  shows "maxUpdateRetries \<le> length es \<Longrightarrow>
           fst (updateLease u c l) = Some (es ! (maxUpdateRetries - 1)) \<and>
           attempts l (snd (updateLease u c l)) = maxUpdateRetries \<and>
           table (Client (snd (updateLease u c l))) = table (Client l) \<and>
           now (snd (updateLease u c l)) = now l + (\<Sum>i<maxUpdateRetries. ForAttempt (Backoff l) i)"
    and "length es < maxUpdateRetries \<Longrightarrow> fst (updateLease u c (served l)) = None \<Longrightarrow>
           fst (updateLease u c l) = None \<and>
           attempts l (snd (updateLease u c l)) = Suc (length es) \<and>
           table (Client (snd (updateLease u c l))) =
             table (Client (snd (updateLease u c (served l)))) \<and>
           now (snd (updateLease u c l)) = now l + (\<Sum>i<length es. ForAttempt (Backoff l) i)"
proof -
  have a0: "attempt (Backoff l) = 0"
    using a by (simp add: Attempt_def)
  show "fst (updateLease u c l) = Some (es ! (maxUpdateRetries - 1)) \<and>
           attempts l (snd (updateLease u c l)) = maxUpdateRetries \<and>
           table (Client (snd (updateLease u c l))) = table (Client l) \<and>
           now (snd (updateLease u c l)) = now l + (\<Sum>i<maxUpdateRetries. ForAttempt (Backoff l) i)"
    if "maxUpdateRetries \<le> length es"
    by (simp add: updateLease_def loops_exhausted(1) [OF a f that] afterFailures_simps
        attempts_def a0)
  show "fst (updateLease u c l) = None \<and>
           attempts l (snd (updateLease u c l)) = Suc (length es) \<and>
           table (Client (snd (updateLease u c l))) =
             table (Client (snd (updateLease u c (served l)))) \<and>
           now (snd (updateLease u c l)) = now l + (\<Sum>i<length es. ForAttempt (Backoff l) i)"
    if few: "length es < maxUpdateRetries" and ok: "fst (updateLease u c (served l)) = None"
  proof -
    let ?m = "afterFailures (length es) [] l"
    have "updateLease u c (served l) = (None, snd (updateLease u c (served l)))"
      using ok by (cases "updateLease u c (served l)") simp
    from updateLease_None [OF _ this] a obtain t where
      t: "table (Client l) = Some t" and key: "Key u \<noteq> []" and
      met: "conditionMet (updateInput u c) (case lookup (Key u) t of None \<Rightarrow> [] | Some i \<Rightarrow> i)" and
      t': "table (Client (snd (updateLease u c (served l)))) = Some (put
        (applySet (UpdateExpression (updateInput u c)) (ExpressionAttributeValues (updateInput u c))
           (case lookup (Key u) t of None \<Rightarrow> [(LeaseKeyKey, S (Key u))] | Some i \<Rightarrow> i)) t)"
      by (auto simp: served_simps)
    have resume: "updateLoop (updateInput u c) None l = updateLoop (updateInput u c) None ?m"
      using few a by (intro loops_resume(1) [OF f]) simp
    have "Attempt (Backoff ?m) < maxUpdateRetries" "faults (Client ?m) = []"
      "table (Client ?m) = Some t"
      using few a t by (simp_all add: afterFailures_simps)
    from updateLoop_last [OF this key met, of None] resume t' show ?thesis
      by (simp add: updateLease_def afterFailures_simps attempts_def a0)
  qed
qed

lemma DeleteLease_retries:
  assumes a: "Attempt (Backoff l) = 0" and f: "faults (Client l) = map Some es"
  shows "maxDeleteRetries \<le> length es \<Longrightarrow>
           fst (DeleteLease lease l) = Some (es ! (maxDeleteRetries - 1)) \<and>
           attempts l (snd (DeleteLease lease l)) = maxDeleteRetries \<and>
           table (Client (snd (DeleteLease lease l))) = table (Client l) \<and>
           now (snd (DeleteLease lease l)) =
             now l + (\<Sum>i<maxDeleteRetries. ForAttempt (Backoff l) i)"
    and "length es < maxDeleteRetries \<Longrightarrow> fst (DeleteLease lease (served l)) = None \<Longrightarrow>
           fst (DeleteLease lease l) = None \<and>
           attempts l (snd (DeleteLease lease l)) = Suc (length es) \<and>
           table (Client (snd (DeleteLease lease l))) =
             table (Client (snd (DeleteLease lease (served l)))) \<and>
           now (snd (DeleteLease lease l)) = now l + (\<Sum>i<length es. ForAttempt (Backoff l) i)"
proof -
  have a0: "attempt (Backoff l) = 0"
    using a by (simp add: Attempt_def)
  show "fst (DeleteLease lease l) = Some (es ! (maxDeleteRetries - 1)) \<and>
           attempts l (snd (DeleteLease lease l)) = maxDeleteRetries \<and>
           table (Client (snd (DeleteLease lease l))) = table (Client l) \<and>
           now (snd (DeleteLease lease l)) =
             now l + (\<Sum>i<maxDeleteRetries. ForAttempt (Backoff l) i)"
    if "maxDeleteRetries \<le> length es"
    by (simp add: DeleteLease_def loops_exhausted(2) [OF a f that] afterFailures_simps
        attempts_def a0)
  show "fst (DeleteLease lease l) = None \<and>
           attempts l (snd (DeleteLease lease l)) = Suc (length es) \<and>
           table (Client (snd (DeleteLease lease l))) =
             table (Client (snd (DeleteLease lease (served l)))) \<and>
           now (snd (DeleteLease lease l)) = now l + (\<Sum>i<length es. ForAttempt (Backoff l) i)"
    if few: "length es < maxDeleteRetries" and ok: "fst (DeleteLease lease (served l)) = None"
  proof -
    let ?m = "afterFailures (length es) [] l"
    from DeleteLease_None [OF _ ok] a obtain t where
      t: "table (Client l) = Some t" and key: "Key lease \<noteq> []" and
      met: "conditionMet (deleteInput lease)
              (case lookup (Key lease) t of None \<Rightarrow> [] | Some i \<Rightarrow> i)" and
      t': "table (Client (snd (DeleteLease lease (served l)))) = Some (remove (Key lease) t)"
      by (auto simp: served_simps)
    have resume: "deleteLoop lease None l = deleteLoop lease None ?m"
      using few a by (intro loops_resume(2) [OF f]) simp
    have "Attempt (Backoff ?m) < maxDeleteRetries" "faults (Client ?m) = []"
      "table (Client ?m) = Some t"
      using few a t by (simp_all add: afterFailures_simps)
    from deleteLoop_last [OF this key met, of None] resume t' show ?thesis
      by (simp add: DeleteLease_def afterFailures_simps attempts_def a0)
  qed
qed


lemma ListLeases_retries:
  assumes a: "Attempt (Backoff l) = 0" and f: "faults (Client l) = map Some es"
  shows "maxScanRetries \<le> length es \<Longrightarrow>
           fst (snd (ListLeases l :: 'a Lease list \<times> _)) = Some (es ! (maxScanRetries - 1)) \<and>
           attempts l (snd (snd (ListLeases l :: 'a Lease list \<times> _))) = maxScanRetries \<and>
           table (Client (snd (snd (ListLeases l :: 'a Lease list \<times> _)))) = table (Client l) \<and>
           now (snd (snd (ListLeases l :: 'a Lease list \<times> _))) =
             now l + (\<Sum>i<maxScanRetries. ForAttempt (Backoff l) i)"
    and "length es < maxScanRetries \<Longrightarrow>
         fst (snd (ListLeases (served l) :: 'a Lease list \<times> _)) = None \<Longrightarrow>
           fst (snd (ListLeases l :: 'a Lease list \<times> _)) = None \<and>
           attempts l (snd (snd (ListLeases l :: 'a Lease list \<times> _))) = Suc (length es) \<and>
           table (Client (snd (snd (ListLeases l :: 'a Lease list \<times> _)))) =
             table (Client (snd (snd (ListLeases (served l) :: 'a Lease list \<times> _)))) \<and>
           now (snd (snd (ListLeases l :: 'a Lease list \<times> _))) =
             now l + (\<Sum>i<length es. ForAttempt (Backoff l) i)"
proof -
  have a0: "attempt (Backoff l) = 0"
    using a by (simp add: Attempt_def)
  show "fst (snd (ListLeases l :: 'a Lease list \<times> _)) = Some (es ! (maxScanRetries - 1)) \<and>
           attempts l (snd (snd (ListLeases l :: 'a Lease list \<times> _))) = maxScanRetries \<and>
           table (Client (snd (snd (ListLeases l :: 'a Lease list \<times> _)))) = table (Client l) \<and>
           now (snd (snd (ListLeases l :: 'a Lease list \<times> _))) =
             now l + (\<Sum>i<maxScanRetries. ForAttempt (Backoff l) i)"
    if "maxScanRetries \<le> length es"
    by (simp add: ListLeases_def loops_exhausted(3) [OF a f that] afterFailures_simps
        attempts_def a0)
  show "fst (snd (ListLeases l :: 'a Lease list \<times> _)) = None \<and>
           attempts l (snd (snd (ListLeases l :: 'a Lease list \<times> _))) = Suc (length es) \<and>
           table (Client (snd (snd (ListLeases l :: 'a Lease list \<times> _)))) =
             table (Client (snd (snd (ListLeases (served l) :: 'a Lease list \<times> _)))) \<and>
           now (snd (snd (ListLeases l :: 'a Lease list \<times> _))) =
             now l + (\<Sum>i<length es. ForAttempt (Backoff l) i)"
    if few: "length es < maxScanRetries"
      and ok: "fst (snd (ListLeases (served l) :: 'a Lease list \<times> _)) = None"
  proof -
    let ?m = "afterFailures (length es) [] l"
    obtain list0 l0 where
      "(ListLeases (served l) :: 'a Lease list \<times> _) = (list0, None, l0)"
      using ok by (cases "ListLeases (served l) :: 'a Lease list \<times> _") auto
    from ListLeases_None [OF _ this] a this obtain t where
      t: "table (Client l) = Some t" and
      t': "table (Client (snd (snd (ListLeases (served l) :: 'a Lease list \<times> _)))) = Some t"
      by (auto simp: served_simps)
    have resume: "scanLoop ([] :: 'a Lease list) None l = scanLoop [] None ?m"
      using few a by (intro loops_resume(3) [OF f]) simp
    have "Attempt (Backoff ?m) < maxScanRetries" "faults (Client ?m) = []"
      "table (Client ?m) = Some t"
      using few a t by (simp_all add: afterFailures_simps)
    from scanLoop_last [OF this, of "[] :: 'a Lease list" None] resume t t' show ?thesis
      by (simp add: ListLeases_def afterFailures_simps attempts_def a0)
  qed
qed

lemma CreateLeaseTable_retries:
  assumes a: "Attempt (Backoff l) = 0" and f: "faults (Client l) = map Some es"
    and r: "list_all (\<lambda>e. e \<noteq> RequestFailure AlreadyExist) es"
  shows "maxCreateRetries \<le> length es \<Longrightarrow>
           fst (CreateLeaseTable l) = Some (es ! (maxCreateRetries - 1)) \<and>
           attempts l (snd (CreateLeaseTable l)) = maxCreateRetries \<and>
           table (Client (snd (CreateLeaseTable l))) = table (Client l) \<and>
           now (snd (CreateLeaseTable l)) =
             now l + (\<Sum>i<maxCreateRetries. ForAttempt (Backoff l) i)"
    and "length es < maxCreateRetries \<Longrightarrow>
           fst (CreateLeaseTable l) = None \<and>
           attempts l (snd (CreateLeaseTable l)) = Suc (length es) \<and>
           table (Client (snd (CreateLeaseTable l))) =
             table (Client (snd (CreateLeaseTable (served l)))) \<and>
           now (snd (CreateLeaseTable l)) = now l + (\<Sum>i<length es. ForAttempt (Backoff l) i)"
proof -
  have a0: "attempt (Backoff l) = 0"
    using a by (simp add: Attempt_def)
  show "fst (CreateLeaseTable l) = Some (es ! (maxCreateRetries - 1)) \<and>
           attempts l (snd (CreateLeaseTable l)) = maxCreateRetries \<and>
           table (Client (snd (CreateLeaseTable l))) = table (Client l) \<and>
           now (snd (CreateLeaseTable l)) =
             now l + (\<Sum>i<maxCreateRetries. ForAttempt (Backoff l) i)"
    if "maxCreateRetries \<le> length es"
    by (simp add: CreateLeaseTable_def loops_exhausted(4) [OF a f that r] afterFailures_simps
        attempts_def a0)
  show "fst (CreateLeaseTable l) = None \<and>
           attempts l (snd (CreateLeaseTable l)) = Suc (length es) \<and>
           table (Client (snd (CreateLeaseTable l))) =
             table (Client (snd (CreateLeaseTable (served l)))) \<and>
           now (snd (CreateLeaseTable l)) = now l + (\<Sum>i<length es. ForAttempt (Backoff l) i)"
    if few: "length es < maxCreateRetries"
  proof -
    let ?m = "afterFailures (length es) [] l"
    have resume: "createTableLoop None l = createTableLoop None ?m"
      using few a r by (intro loops_resume(4) [OF f]) simp_all
    have m: "Attempt (Backoff ?m) < maxCreateRetries" "faults (Client ?m) = []"
      using few a by (simp_all add: afterFailures_simps)
    have s: "Attempt (Backoff (served l)) < maxCreateRetries" "faults (Client (served l)) = []"
      using a by (simp_all add: served_simps maxCreateRetries_def)
    from createTableLoop_last [OF m, of None] createTableLoop_last [OF s, of None] resume
    show ?thesis
      by (simp add: CreateLeaseTable_def case_prod_beta afterFailures_simps served_simps
          attempts_def a0)
  qed
qed

lemma retriesUpTo_update:
  "retriesUpTo maxUpdateRetries (\<lambda>e. True) (\<lambda>l. updateLease (u (WorkerId l)) c l)"
  unfolding retriesUpTo_def
proof (intro allI impI)
  fix l :: LeaseManager and es
  assume h: "Attempt (Backoff l) = 0 \<and> faults (Client l) = map Some es \<and>
    list_all (\<lambda>e. True) es"
  then have a: "Attempt (Backoff l) = 0" and f: "faults (Client l) = map Some es"
    by simp_all
  from updateLease_retries [OF a f, of "u (WorkerId l)" c]
  show "(maxUpdateRetries \<le> length es \<longrightarrow>
          fst (updateLease (u (WorkerId l)) c l) = Some (es ! (maxUpdateRetries - 1)) \<and>
          attempts l (snd (updateLease (u (WorkerId l)) c l)) = maxUpdateRetries \<and>
          table (Client (snd (updateLease (u (WorkerId l)) c l))) = table (Client l) \<and>
          now (snd (updateLease (u (WorkerId l)) c l)) =
            now l + (\<Sum>i<maxUpdateRetries. ForAttempt (Backoff l) i)) \<and>
        (length es < maxUpdateRetries \<and>
         fst (updateLease (u (WorkerId (served l))) c (served l)) = None \<longrightarrow>
          fst (updateLease (u (WorkerId l)) c l) = None \<and>
          attempts l (snd (updateLease (u (WorkerId l)) c l)) = Suc (length es) \<and>
          table (Client (snd (updateLease (u (WorkerId l)) c l))) =
            table (Client (snd (updateLease (u (WorkerId (served l))) c (served l)))) \<and>
          now (snd (updateLease (u (WorkerId l)) c l)) =
            now l + (\<Sum>i<length es. ForAttempt (Backoff l) i))"
    by (simp add: served_simps)
qed

lemma operations_as_updateLease:
  "(\<lambda>l. (fst (RenewLease lease l), snd (snd (RenewLease lease l)))) =
     (\<lambda>l. updateLease ((\<lambda>w. lease\<lparr>Counter := Counter lease + 1\<rparr>) (WorkerId l)) lease l)"
  "(\<lambda>l. (fst (TakeLease lease l), snd (snd (TakeLease lease l)))) =
     (\<lambda>l. updateLease ((\<lambda>w. lease\<lparr>Counter := Counter lease + 1, Owner := w\<rparr>) (WorkerId l))
        lease l)"
  "(\<lambda>l. (fst (EvictLease lease l), snd (snd (EvictLease lease l)))) =
     (\<lambda>l. updateLease ((\<lambda>w. lease\<lparr>Owner := ''NULL''\<rparr>) (WorkerId l)) lease l)"
  by (simp_all add: operations_unfold)

lemma retriesUpTo_operations:
  "retriesUpTo maxCreateRetries (\<lambda>e. e \<noteq> RequestFailure AlreadyExist) CreateLeaseTable"
  "retriesUpTo maxScanRetries (\<lambda>e. True) (\<lambda>l. snd (ListLeases l :: 'a Lease list \<times> _))"
  "retriesUpTo maxUpdateRetries (\<lambda>e. True)
     (\<lambda>l. (fst (RenewLease lease l), snd (snd (RenewLease lease l))))"
  "retriesUpTo maxUpdateRetries (\<lambda>e. True)
     (\<lambda>l. (fst (TakeLease lease l), snd (snd (TakeLease lease l))))"
  "retriesUpTo maxUpdateRetries (\<lambda>e. True)
     (\<lambda>l. (fst (EvictLease lease l), snd (snd (EvictLease lease l))))"
  "retriesUpTo maxDeleteRetries (\<lambda>e. True) (DeleteLease lease)"
proof -
  show "retriesUpTo maxCreateRetries (\<lambda>e. e \<noteq> RequestFailure AlreadyExist) CreateLeaseTable"
    unfolding retriesUpTo_def
  proof (intro allI impI)
    fix l :: LeaseManager and es
    assume "Attempt (Backoff l) = 0 \<and> faults (Client l) = map Some es \<and>
      list_all (\<lambda>e. e \<noteq> RequestFailure AlreadyExist) es"
    then have a: "Attempt (Backoff l) = 0" and f: "faults (Client l) = map Some es"
      and r: "list_all (\<lambda>e. e \<noteq> RequestFailure AlreadyExist) es"
      by simp_all
    from CreateLeaseTable_retries [OF a f r]
    show "(maxCreateRetries \<le> length es \<longrightarrow>
            fst (CreateLeaseTable l) = Some (es ! (maxCreateRetries - 1)) \<and>
            attempts l (snd (CreateLeaseTable l)) = maxCreateRetries \<and>
            table (Client (snd (CreateLeaseTable l))) = table (Client l) \<and>
            now (snd (CreateLeaseTable l)) =
              now l + (\<Sum>i<maxCreateRetries. ForAttempt (Backoff l) i)) \<and>
          (length es < maxCreateRetries \<and> fst (CreateLeaseTable (served l)) = None \<longrightarrow>
            fst (CreateLeaseTable l) = None \<and>
            attempts l (snd (CreateLeaseTable l)) = Suc (length es) \<and>
            table (Client (snd (CreateLeaseTable l))) =
              table (Client (snd (CreateLeaseTable (served l)))) \<and>
            now (snd (CreateLeaseTable l)) =
              now l + (\<Sum>i<length es. ForAttempt (Backoff l) i))"
      by simp
  qed
  show "retriesUpTo maxScanRetries (\<lambda>e. True) (\<lambda>l. snd (ListLeases l :: 'a Lease list \<times> _))"
    unfolding retriesUpTo_def
  proof (intro allI impI)
    fix l :: LeaseManager and es
    assume "Attempt (Backoff l) = 0 \<and> faults (Client l) = map Some es \<and>
      list_all (\<lambda>e. True) es"
    then have a: "Attempt (Backoff l) = 0" and f: "faults (Client l) = map Some es"
      by simp_all
    from ListLeases_retries [OF a f, where ?'a = 'a]
    show "(maxScanRetries \<le> length es \<longrightarrow>
            fst (snd (ListLeases l :: 'a Lease list \<times> _)) = Some (es ! (maxScanRetries - 1)) \<and>
            attempts l (snd (snd (ListLeases l :: 'a Lease list \<times> _))) = maxScanRetries \<and>
            table (Client (snd (snd (ListLeases l :: 'a Lease list \<times> _)))) =
              table (Client l) \<and>
            now (snd (snd (ListLeases l :: 'a Lease list \<times> _))) =
              now l + (\<Sum>i<maxScanRetries. ForAttempt (Backoff l) i)) \<and>
          (length es < maxScanRetries \<and>
           fst (snd (ListLeases (served l) :: 'a Lease list \<times> _)) = None \<longrightarrow>
            fst (snd (ListLeases l :: 'a Lease list \<times> _)) = None \<and>
            attempts l (snd (snd (ListLeases l :: 'a Lease list \<times> _))) = Suc (length es) \<and>
            table (Client (snd (snd (ListLeases l :: 'a Lease list \<times> _)))) =
              table (Client (snd (snd (ListLeases (served l) :: 'a Lease list \<times> _)))) \<and>
            now (snd (snd (ListLeases l :: 'a Lease list \<times> _))) =
              now l + (\<Sum>i<length es. ForAttempt (Backoff l) i))"
      by simp
  qed
  show "retriesUpTo maxDeleteRetries (\<lambda>e. True) (DeleteLease lease)"
    unfolding retriesUpTo_def
  proof (intro allI impI)
    fix l :: LeaseManager and es
    assume "Attempt (Backoff l) = 0 \<and> faults (Client l) = map Some es \<and>
      list_all (\<lambda>e. True) es"
    then have a: "Attempt (Backoff l) = 0" and f: "faults (Client l) = map Some es"
      by simp_all
    from DeleteLease_retries [OF a f, of lease]
    show "(maxDeleteRetries \<le> length es \<longrightarrow>
            fst (DeleteLease lease l) = Some (es ! (maxDeleteRetries - 1)) \<and>
            attempts l (snd (DeleteLease lease l)) = maxDeleteRetries \<and>
            table (Client (snd (DeleteLease lease l))) = table (Client l) \<and>
            now (snd (DeleteLease lease l)) =
              now l + (\<Sum>i<maxDeleteRetries. ForAttempt (Backoff l) i)) \<and>
          (length es < maxDeleteRetries \<and> fst (DeleteLease lease (served l)) = None \<longrightarrow>
            fst (DeleteLease lease l) = None \<and>
            attempts l (snd (DeleteLease lease l)) = Suc (length es) \<and>
            table (Client (snd (DeleteLease lease l))) =
              table (Client (snd (DeleteLease lease (served l)))) \<and>
            now (snd (DeleteLease lease l)) =
              now l + (\<Sum>i<length es. ForAttempt (Backoff l) i))"
      by simp
  qed
  show "retriesUpTo maxUpdateRetries (\<lambda>e. True)
     (\<lambda>l. (fst (RenewLease lease l), snd (snd (RenewLease lease l))))"
    unfolding operations_as_updateLease by (rule retriesUpTo_update)
  show "retriesUpTo maxUpdateRetries (\<lambda>e. True)
     (\<lambda>l. (fst (TakeLease lease l), snd (snd (TakeLease lease l))))"
    unfolding operations_as_updateLease by (rule retriesUpTo_update)
  show "retriesUpTo maxUpdateRetries (\<lambda>e. True)
     (\<lambda>l. (fst (EvictLease lease l), snd (snd (EvictLease lease l))))"
    unfolding operations_as_updateLease by (rule retriesUpTo_update)
qed

lemma CreateLease_once:
  "attempts l (snd (CreateLease lease l)) = 1"
  "now (snd (CreateLease lease l)) = now l"
  "faults (Client l) = Some e # fs \<Longrightarrow> fst (CreateLease lease l) = Some e"
  using requests_CreateLease [of lease l]
  by (simp_all add: attempts_def CreateLease_def calls_fault case_prod_beta)

lemma request_bounds:
  assumes "Attempt (Backoff l) = 0"
  shows "maxCreateRetries = 3 \<and> maxScanRetries = 3 \<and>
         maxUpdateRetries = 2 \<and> maxDeleteRetries = 2 \<and>
         (1 \<le> attempts l (snd (CreateLeaseTable l)) \<and>
          attempts l (snd (CreateLeaseTable l)) \<le> maxCreateRetries \<and>
          (fst (CreateLeaseTable l) \<noteq> None \<longrightarrow>
             attempts l (snd (CreateLeaseTable l)) = maxCreateRetries)) \<and>
         (1 \<le> attempts l (snd (snd (ListLeases l :: 'a Lease list \<times> _))) \<and>
          attempts l (snd (snd (ListLeases l :: 'a Lease list \<times> _))) \<le> maxScanRetries \<and>
          (fst (snd (ListLeases l :: 'a Lease list \<times> _)) \<noteq> None \<longrightarrow>
             attempts l (snd (snd (ListLeases l :: 'a Lease list \<times> _))) = maxScanRetries)) \<and>
         (1 \<le> attempts l (snd (snd (RenewLease lease l))) \<and>
          attempts l (snd (snd (RenewLease lease l))) \<le> maxUpdateRetries \<and>
          (fst (RenewLease lease l) \<noteq> None \<longrightarrow>
             attempts l (snd (snd (RenewLease lease l))) = maxUpdateRetries)) \<and>
         (1 \<le> attempts l (snd (snd (TakeLease lease l))) \<and>
          attempts l (snd (snd (TakeLease lease l))) \<le> maxUpdateRetries \<and>
          (fst (TakeLease lease l) \<noteq> None \<longrightarrow>
             attempts l (snd (snd (TakeLease lease l))) = maxUpdateRetries)) \<and>
         (1 \<le> attempts l (snd (snd (EvictLease lease l))) \<and>
          attempts l (snd (snd (EvictLease lease l))) \<le> maxUpdateRetries \<and>
          (fst (EvictLease lease l) \<noteq> None \<longrightarrow>
             attempts l (snd (snd (EvictLease lease l))) = maxUpdateRetries)) \<and>
         (1 \<le> attempts l (snd (DeleteLease lease l)) \<and>
          attempts l (snd (DeleteLease lease l)) \<le> maxDeleteRetries \<and>
          (fst (DeleteLease lease l) \<noteq> None \<longrightarrow>
             attempts l (snd (DeleteLease lease l)) = maxDeleteRetries))"
proof -
  note b = attempts_bounds
  have create: "1 \<le> attempts l (snd (CreateLeaseTable l)) \<and>
          attempts l (snd (CreateLeaseTable l)) \<le> maxCreateRetries \<and>
          (fst (CreateLeaseTable l) \<noteq> None \<longrightarrow>
             attempts l (snd (CreateLeaseTable l)) = maxCreateRetries)"
    using CreateLeaseTable_requests [OF assms] by (intro b) simp_all
  have list: "1 \<le> attempts l (snd (snd (ListLeases l :: 'a Lease list \<times> _))) \<and>
          attempts l (snd (snd (ListLeases l :: 'a Lease list \<times> _))) \<le> maxScanRetries \<and>
          (fst (snd (ListLeases l :: 'a Lease list \<times> _)) \<noteq> None \<longrightarrow>
             attempts l (snd (snd (ListLeases l :: 'a Lease list \<times> _))) = maxScanRetries)"
    using ListLeases_requests [OF assms, where ?'a = 'a] by (intro b) simp_all
  have upd: "1 \<le> attempts l (snd (updateLease u lease l)) \<and>
          attempts l (snd (updateLease u lease l)) \<le> maxUpdateRetries \<and>
          (fst (updateLease u lease l) \<noteq> None \<longrightarrow>
             attempts l (snd (updateLease u lease l)) = maxUpdateRetries)" for u
    using updateLease_requests [OF assms, of u lease] by (intro b) simp_all
  have del: "1 \<le> attempts l (snd (DeleteLease lease l)) \<and>
          attempts l (snd (DeleteLease lease l)) \<le> maxDeleteRetries \<and>
          (fst (DeleteLease lease l) \<noteq> None \<longrightarrow>
             attempts l (snd (DeleteLease lease l)) = maxDeleteRetries)"
    using DeleteLease_requests [OF assms, of lease] by (intro b) simp_all
  have caps: "maxCreateRetries = 3 \<and> maxScanRetries = 3 \<and>
         maxUpdateRetries = 2 \<and> maxDeleteRetries = 2"
    by (simp add: maxCreateRetries_def maxScanRetries_def maxUpdateRetries_def
        maxDeleteRetries_def)
  from caps create list upd del show ?thesis
    unfolding operations_unfold by blast
qed

lemma down_facts:
  "Attempt (Backoff down) = 0" "faults (Client down) = map Some [timeout, timeout]"
  "now down = 1000" "ForAttempt (Backoff down) = policy"
  by (simp_all add: down_def worker1_def Attempt_def)

lemma flaky_served:
  "served flaky = worker1" "faults (Client flaky) = map Some [timeout]"
  "now flaky = 1000" "ForAttempt (Backoff flaky) = policy"
  by (simp_all add: served_def flaky_def worker1_def)

lemma renew_held: "fst (RenewLease heldLease worker1) = None"
  by (simp add: operations_unfold updateLease_served [where t = "[itemA]"]
      worker1_facts lease_facts word_sless_alt)

section \<open>Properties of the lease record\<close>

text \<open>
  Claim C9. For every lease, every key \<open>k\<close> and every value \<open>v\<close>, \<open>Set(k, v)\<close> followed by
  \<open>Get(k)\<close> returns \<open>(v, true)\<close>, whether or not the extras map had been allocated before.
\<close>

theorem Set_then_Get: "Get (Set l k v) k = (v, True)"
  by (simp add: Get_def Set_def)

section \<open>Writing back to the caller's lease\<close>

text \<open>
  Claim C10. A successful \<open>RenewLease\<close> changes only the \<open>Counter\<close> field of the passed-in
  lease, adding one to it; a successful \<open>TakeLease\<close> changes only \<open>Counter\<close> (one more) and
  \<open>Owner\<close> (this worker's id); a successful \<open>EvictLease\<close> changes only \<open>Owner\<close>, which
  becomes \<open>NULL\<close>. Key, lastRenewal, concurrencyToken and the extras stay as they were: the
  lease afterwards equals the lease before with just these fields updated.
\<close>

theorem write_back_on_success:
  "(fst (RenewLease lease l) = None \<longrightarrow>
      fst (snd (RenewLease lease l)) = lease\<lparr>Counter := Counter lease + 1\<rparr>) \<and>
   (fst (TakeLease lease l) = None \<longrightarrow>
      fst (snd (TakeLease lease l)) = lease\<lparr>Counter := Counter lease + 1, Owner := WorkerId l\<rparr>) \<and>
   (fst (EvictLease lease l) = None \<longrightarrow>
      fst (snd (EvictLease lease l)) = lease\<lparr>Owner := ''NULL''\<rparr>)"
  by (simp add: RenewLease_def TakeLease_def EvictLease_def Let_def split: prod.splits)

theorem write_back_on_success_witness:
  "fst (RenewLease heldLease worker1) = None \<and>
   fst (snd (RenewLease heldLease worker1)) = heldLease\<lparr>Counter := 6\<rparr> \<and>
   fst (TakeLease heldLease worker1) = None \<and>
   fst (snd (TakeLease heldLease worker1)) = heldLease\<lparr>Counter := 6, Owner := ''w1''\<rparr> \<and>
   fst (EvictLease heldLease worker1) = None \<and>
   fst (snd (EvictLease heldLease worker1)) = heldLease\<lparr>Owner := ''NULL''\<rparr>"
proof -
  have "fst (RenewLease heldLease worker1) = None" "fst (TakeLease heldLease worker1) = None"
    "fst (EvictLease heldLease worker1) = None"
    by (simp_all add: operations_unfold updateLease_served [where t = "[itemA]"]
        worker1_facts lease_facts word_sless_alt)
  then show ?thesis
    using write_back_on_success [of heldLease worker1] by (simp add: worker1_facts lease_facts)
qed

section \<open>Renewing or taking with a stale counter\<close>




section \<open>The condition attached to a write\<close>



section \<open>Evicting, then taking\<close>






section \<open>Deleting a lease\<close>

text \<open>
  Claim C6, amended. For every lease \<open>L\<close> with a key, \<open>DeleteLease\<close> (called with a fresh
  backoff against a store that serves its requests) succeeds exactly when there is no record
  under the key of \<open>L\<close>, or the record has an owner attribute equal to the owner of \<open>L\<close> and
  a counter attribute equal to the counter of \<open>L\<close>; after a success there is no record under
  the key. Otherwise it returns the conditional-check failure and the record remains. A record
  that lacks one of the two attributes, as a record just created does, matches no lease, not
  even the lease with empty owner and counter 0 that it is listed as.
\<close>

theorem delete_condition:
  assumes "Attempt (Backoff l) = 0" and "faults (Client l) = []"
    and "table (Client l) \<noteq> None" and "Key lease \<noteq> []"
  shows "(fst (DeleteLease lease l) = None \<longleftrightarrow>
            stored l (Key lease) = None \<or>
            (storedOwner l (Key lease) = Some (S (Owner lease)) \<and>
             storedCounter l (Key lease) = Some (N (sint (Counter lease))))) \<and>
         (fst (DeleteLease lease l) = None \<longrightarrow>
            stored (snd (DeleteLease lease l)) (Key lease) = None) \<and>
         (fst (DeleteLease lease l) \<noteq> None \<longrightarrow>
            fst (DeleteLease lease l) = Some ConditionalCheckFailed \<and>
            stored (snd (DeleteLease lease l)) (Key lease) = stored l (Key lease))"
proof -
  from assms(3) obtain t where t: "table (Client l) = Some t" by auto
  show ?thesis
    unfolding DeleteLease_served [OF assms(1,2) t assms(4)] conditionMet_delete_stored [OF t]
    using t by (simp add: stored_def lookup_remove)
qed

theorem delete_condition_witness:
  "Attempt (Backoff worker1) = 0 \<and> faults (Client worker1) = [] \<and>
   table (Client worker1) \<noteq> None \<and> Key staleLease \<noteq> [] \<and> Key heldLease \<noteq> [] \<and>
   fst (DeleteLease staleLease worker1) = Some ConditionalCheckFailed \<and>
   stored (snd (DeleteLease staleLease worker1)) ''A'' = Some itemA \<and>
   fst (DeleteLease heldLease worker1) = None \<and>
   stored (snd (DeleteLease heldLease worker1)) ''A'' = None \<and>
   stored worker1 (Key absentLease) = None \<and>
   fst (DeleteLease absentLease worker1) = None \<and>
   storedOwner starter (Key newLease) = None \<and>
   fst (DeleteLease newLease starter) = Some ConditionalCheckFailed \<and>
   stored (snd (DeleteLease newLease starter)) ''A'' = Some createdItem"
  using delete_condition [of worker1 staleLease] delete_condition [of worker1 heldLease]
    delete_condition [of worker1 absentLease] delete_condition [of starter newLease]
  by (simp add: worker1_facts lease_facts absent_facts starter_facts)

text \<open>
  The claim as stated fails when owner and counter are read as a lease reads them. The record
  that \<open>CreateLease\<close> has just written has neither attribute; it is listed as the lease with
  no owner and counter 0, and deleting exactly that lease is refused and leaves the record.
\<close>

theorem created_lease_not_deleted:
  "stored starter (Key newLease) = Some createdItem \<and>
   UnmarshalMap createdItem = Inr newLease \<and>
   Owner newLease = [] \<and> Counter newLease = 0 \<and>
   fst (ListLeases starter) = [newLease\<lparr>lastRenewal := now starter\<rparr>] \<and>
   fst (DeleteLease newLease starter) = Some ConditionalCheckFailed \<and>
   stored (snd (DeleteLease newLease starter)) (Key newLease) = Some createdItem"
proof -
  have "\<not> conditionMet (deleteInput newLease)
          (case lookup (Key newLease) [createdItem] of None \<Rightarrow> [] | Some item \<Rightarrow> item)"
    using conditionMet_delete_stored [OF starter_facts(3), of newLease]
    by (simp add: starter_facts lease_facts)
  then have del: "fst (DeleteLease newLease starter) = Some ConditionalCheckFailed"
    and "stored (snd (DeleteLease newLease starter)) (Key newLease) =
           stored starter (Key newLease)"
    by (simp_all add: DeleteLease_served [OF starter_facts(1,2,3)] lease_facts stored_def)
  then show ?thesis
    by (simp add: ListLeases_served [OF starter_facts(1,2,3)] decode_created lease_facts
        starter_facts)
qed

section \<open>A conditional-check failure in the retry loops\<close>

text \<open>
  Claim C2, amended. The retry loops do not tell a conditional-check failure from any other
  error. When the record under the key of the lease does not meet the condition of the write,
  renew, take, evict and delete (called with a fresh backoff against a store that serves its
  requests) send the write again until the cap of the operation is reached, two requests in
  all, and then return the conditional-check failure to the caller.
\<close>

theorem conditional_failure_is_retried:
  assumes "Attempt (Backoff l) = 0" and "faults (Client l) = []"
    and "stored l (Key lease) = Some item"
  shows "(\<not> ((0 <s Counter lease \<longrightarrow>
               map_of item LeaseCounterKey = Some (N (sint (Counter lease)))) \<and>
            (Owner lease \<noteq> [] \<longrightarrow> map_of item LeaseOwnerKey = Some (S (Owner lease)))) \<longrightarrow>
          fst (RenewLease lease l) = Some ConditionalCheckFailed \<and>
          requests (Client (snd (snd (RenewLease lease l)))) =
            requests (Client l) + maxUpdateRetries \<and>
          fst (TakeLease lease l) = Some ConditionalCheckFailed \<and>
          requests (Client (snd (snd (TakeLease lease l)))) =
            requests (Client l) + maxUpdateRetries \<and>
          fst (EvictLease lease l) = Some ConditionalCheckFailed \<and>
          requests (Client (snd (snd (EvictLease lease l)))) =
            requests (Client l) + maxUpdateRetries) \<and>
         (\<not> (map_of item LeaseOwnerKey = Some (S (Owner lease)) \<and>
             map_of item LeaseCounterKey = Some (N (sint (Counter lease)))) \<longrightarrow>
          fst (DeleteLease lease l) = Some ConditionalCheckFailed \<and>
          requests (Client (snd (DeleteLease lease l))) =
            requests (Client l) + maxDeleteRetries)"
proof -
  from stored_present [OF assms(3)] obtain t where
    t: "table (Client l) = Some t" and key: "Key lease \<noteq> []" and
    own: "storedOwner l (Key lease) = map_of item LeaseOwnerKey" and
    ctr: "storedCounter l (Key lease) = map_of item LeaseCounterKey"
    by blast
  have upd: "fst (updateLease u lease l) = Some ConditionalCheckFailed \<and>
      requests (Client (snd (updateLease u lease l))) = requests (Client l) + 2"
    if "Key u = Key lease"
      "\<not> ((0 <s Counter lease \<longrightarrow>
               map_of item LeaseCounterKey = Some (N (sint (Counter lease)))) \<and>
            (Owner lease \<noteq> [] \<longrightarrow> map_of item LeaseOwnerKey = Some (S (Owner lease))))" for u
    using updateLease_refused_twice [of l t u lease] assms(1,2) t key own ctr that by simp
  have del: "fst (DeleteLease lease l) = Some ConditionalCheckFailed \<and>
          requests (Client (snd (DeleteLease lease l))) = requests (Client l) + 2"
    if "\<not> (map_of item LeaseOwnerKey = Some (S (Owner lease)) \<and>
             map_of item LeaseCounterKey = Some (N (sint (Counter lease))))"
    unfolding DeleteLease_served [OF assms(1,2) t key] conditionMet_delete_stored [OF t]
    using that assms(3) own ctr by auto
  show ?thesis
    using upd del
    by (simp add: operations_unfold maxUpdateRetries_def maxDeleteRetries_def)
qed

theorem conditional_failure_is_retried_witness:
  "Attempt (Backoff worker1) = 0 \<and> faults (Client worker1) = [] \<and>
   stored worker1 (Key staleLease) = Some itemA \<and>
   map_of itemA LeaseCounterKey \<noteq> Some (N (sint (Counter staleLease))) \<and>
   fst (TakeLease staleLease worker1) = Some ConditionalCheckFailed \<and>
   requests (Client (snd (snd (TakeLease staleLease worker1)))) = 2 \<and>
   fst (EvictLease staleLease worker1) = Some ConditionalCheckFailed \<and>
   requests (Client (snd (snd (EvictLease staleLease worker1)))) = 2 \<and>
   fst (DeleteLease staleLease worker1) = Some ConditionalCheckFailed \<and>
   requests (Client (snd (DeleteLease staleLease worker1))) = 2"
proof -
  have h: "stored worker1 (Key staleLease) = Some itemA"
    by (simp add: worker1_facts lease_facts)
  from conditional_failure_is_retried [OF worker1_facts(1,2) h] show ?thesis
    by (simp add: worker1_facts lease_facts word_sless_alt itemA_def maxUpdateRetries_def
        maxDeleteRetries_def LeaseKeyKey_def LeaseOwnerKey_def LeaseCounterKey_def)
qed

text \<open>
  The claim as stated, a single attempt, fails: renewing \<open>A\<close> with a lease one renewal
  behind the table sends the write twice before the failure is returned.
\<close>

theorem stale_renew_sent_twice:
  "storedCounter worker1 (Key staleLease) = Some (N 5) \<and> sint (Counter staleLease) = 4 \<and>
   requests (Client worker1) = 0 \<and>
   fst (RenewLease staleLease worker1) = Some ConditionalCheckFailed \<and>
   requests (Client (snd (snd (RenewLease staleLease worker1)))) = 2"
  using updateLease_refused_twice [of worker1 "[itemA]"
      "staleLease\<lparr>Counter := Counter staleLease + 1\<rparr>" staleLease]
  by (simp add: operations_unfold worker1_facts lease_facts word_sless_alt)

section \<open>Creating a lease that exists\<close>

text \<open>
  Claim C1, amended. For every lease key already present in the store, \<open>CreateLease\<close> with
  that key succeeds when the store serves the request, and the record under the key is
  afterwards the record that has the key and nothing else: the put carries no condition and
  replaces the whole item, so the owner and the counter of the old record are gone. The
  records under other keys are as before.
\<close>

theorem create_replaces_record:
  assumes "faults (Client l) = []" and "stored l (Key lease) = Some item"
  shows "fst (CreateLease lease l) = None \<and>
         stored (snd (CreateLease lease l)) (Key lease) = Some [(LeaseKeyKey, S (Key lease))] \<and>
         storedOwner (snd (CreateLease lease l)) (Key lease) = None \<and>
         storedCounter (snd (CreateLease lease l)) (Key lease) = None \<and>
         (\<forall>k. k \<noteq> Key lease \<longrightarrow> stored (snd (CreateLease lease l)) k = stored l k)"
proof -
  from stored_present [OF assms(2)] obtain t where
    t: "table (Client l) = Some t" and key: "Key lease \<noteq> []"
    by blast
  have k: "keyOf [(LeaseKeyKey, S (Key lease))] = Some (Key lease)"
    using key by (simp add: keyOf_def)
  have look: "stored (snd (CreateLease lease l)) k' =
      (if k' = Key lease then Some [(LeaseKeyKey, S (Key lease))] else stored l k')" for k'
    using t by (simp add: CreateLease_served [OF assms(1) t key] stored_def lookup_put [OF k])
  have "fst (CreateLease lease l) = None"
    by (simp add: CreateLease_served [OF assms(1) t key])
  then show ?thesis
    by (simp add: storedOwner_def storedCounter_def look
        LeaseKeyKey_def LeaseOwnerKey_def LeaseCounterKey_def)
qed

theorem create_replaces_record_witness:
  "faults (Client worker1) = [] \<and> stored worker1 (Key newLease) = Some itemA \<and>
   fst (CreateLease newLease worker1) = None \<and>
   stored (snd (CreateLease newLease worker1)) ''A'' = Some [(LeaseKeyKey, S ''A'')]"
proof -
  have h: "stored worker1 (Key newLease) = Some itemA"
    by (simp add: worker1_facts lease_facts)
  from create_replaces_record [OF worker1_facts(2) h] h show ?thesis
    by (simp add: worker1_facts lease_facts)
qed

text \<open>
  The claim as stated fails: creating \<open>A\<close> again while the table has it with owner \<open>w2\<close>
  and counter 5 succeeds and leaves a record without owner and without counter.
\<close>

theorem create_drops_owner_and_counter:
  "storedOwner worker1 (Key newLease) = Some (S ''w2'') \<and>
   storedCounter worker1 (Key newLease) = Some (N 5) \<and>
   fst (CreateLease newLease worker1) = None \<and>
   storedOwner (snd (CreateLease newLease worker1)) (Key newLease) = None \<and>
   storedCounter (snd (CreateLease newLease worker1)) (Key newLease) = None"
  by (simp add: CreateLease_served [where t = "[itemA]"] worker1_facts lease_facts
      stored_def storedOwner_def storedCounter_def lookup_def keyOf_def itemA_def
      LeaseKeyKey_def LeaseOwnerKey_def LeaseCounterKey_def)

section \<open>Listing the leases\<close>

text \<open>
  Claim C8, amended. A successful \<open>ListLeases\<close> (called with a fresh backoff) returns, in
  the order of the scan, the lease decoded from every record of the table that decodes into a
  \<open>Lease\<close>; a record that does not decode is passed over without an error. Every lease
  returned has its last renewal set to the time at which the records were read, which is the
  time at which the call returns.
\<close>

theorem list_returns_decodable:
  assumes "Attempt (Backoff l) = 0" and "ListLeases l = (list, None, l')"
  shows "\<exists>t. table (Client l) = Some t \<and> table (Client l') = Some t \<and>
           list = List.map_filter
             (\<lambda>item. case UnmarshalMap item of Inl e \<Rightarrow> None
                | Inr lease \<Rightarrow> Some (lease\<lparr>lastRenewal := now l'\<rparr>)) t \<and>
           (\<forall>lease \<in> set list. lastRenewal lease = now l')"
proof -
  from ListLeases_None [OF assms] obtain t where
    t: "table (Client l) = Some t" "table (Client l') = Some t" and
    list: "list = appendLeases t [] (now l')"
    by blast
  have "\<forall>lease \<in> set list. lastRenewal lease = now l'"
    unfolding list appendLeases_map_filter
    by (auto simp: List.map_filter_def split: sum.splits)
  with t list show ?thesis
    by (simp add: appendLeases_map_filter)
qed

theorem list_returns_decodable_witness:
  "Attempt (Backoff lister) = 0 \<and>
   fst (snd (ListLeases lister :: unit Lease list \<times> error option \<times> LeaseManager)) = None \<and>
   table (Client lister) = Some [itemA, oddItem] \<and>
   fst (ListLeases lister :: unit Lease list \<times> error option \<times> LeaseManager) =
     [heldLease\<lparr>lastRenewal := 1000\<rparr>] \<and>
   map lastRenewal (fst (ListLeases lister :: unit Lease list \<times> error option \<times> LeaseManager)) =
     [1000]"
  using list_returns_decodable [OF lister_facts(1) list_lister]
  by (auto simp: list_lister lister_facts decode_items)

text \<open>
  The claim as stated, every record, fails: the record \<open>B\<close>, whose counter is a string, is
  in the table and is not in the list, and the listing reports no error.
\<close>

theorem undecodable_record_not_listed:
  "stored lister ''B'' = Some oddItem \<and>
   fst (snd (ListLeases lister :: unit Lease list \<times> error option \<times> LeaseManager)) = None \<and>
   map Key (fst (ListLeases lister :: unit Lease list \<times> error option \<times> LeaseManager)) = [''A'']"
  by (simp add: list_lister lister_facts heldLease_def NewLease_def)

section \<open>The caps of the retry loops\<close>

text \<open>
  Claim C7, amended. \<open>CreateLeaseTable\<close> and \<open>ListLeases\<close> retry up to 3 attempts, and
  renew, take, evict and delete up to 2, with the delays of the backoff. Called with a fresh
  backoff against a store that fails the first requests, each of them sleeps after a failed
  attempt the delay that the backoff gives for that attempt, and sends the request again. When
  as many requests fail as the cap allows, it returns the error of the last attempt, after
  exactly that many requests, and leaves the table as it was. When fewer fail, it succeeds
  where it would have succeeded against a store that serves, with the same table, after one
  request more than have failed. \<open>CreateLeaseTable\<close> takes a failure with the code
  \<open>ResourceInUseException\<close> as a success instead of retrying it. Whatever the store does,
  these operations send at least one request and at most the cap, and return an error only
  when the cap is reached. \<open>CreateLease\<close> is not among them: it always sends exactly one
  request, never sleeps, and returns the error of that request.
\<close>

theorem retry_caps:
  "maxCreateRetries = 3 \<and> maxScanRetries = 3 \<and> maxUpdateRetries = 2 \<and> maxDeleteRetries = 2 \<and>
   retriesUpTo maxCreateRetries (\<lambda>e. e \<noteq> RequestFailure AlreadyExist) CreateLeaseTable \<and>
   retriesUpTo maxScanRetries (\<lambda>e. True) (\<lambda>l. snd (ListLeases l :: 'a Lease list \<times> _)) \<and>
   retriesUpTo maxUpdateRetries (\<lambda>e. True)
     (\<lambda>l. (fst (RenewLease lease l), snd (snd (RenewLease lease l)))) \<and>
   retriesUpTo maxUpdateRetries (\<lambda>e. True)
     (\<lambda>l. (fst (TakeLease lease l), snd (snd (TakeLease lease l)))) \<and>
   retriesUpTo maxUpdateRetries (\<lambda>e. True)
     (\<lambda>l. (fst (EvictLease lease l), snd (snd (EvictLease lease l)))) \<and>
   retriesUpTo maxDeleteRetries (\<lambda>e. True) (DeleteLease lease) \<and>
   (Attempt (Backoff l) = 0 \<longrightarrow>
      (1 \<le> attempts l (snd (CreateLeaseTable l)) \<and>
       attempts l (snd (CreateLeaseTable l)) \<le> maxCreateRetries \<and>
       (fst (CreateLeaseTable l) \<noteq> None \<longrightarrow>
          attempts l (snd (CreateLeaseTable l)) = maxCreateRetries)) \<and>
      (1 \<le> attempts l (snd (snd (ListLeases l :: 'a Lease list \<times> _))) \<and>
       attempts l (snd (snd (ListLeases l :: 'a Lease list \<times> _))) \<le> maxScanRetries \<and>
       (fst (snd (ListLeases l :: 'a Lease list \<times> _)) \<noteq> None \<longrightarrow>
          attempts l (snd (snd (ListLeases l :: 'a Lease list \<times> _))) = maxScanRetries)) \<and>
      (1 \<le> attempts l (snd (snd (RenewLease lease l))) \<and>
       attempts l (snd (snd (RenewLease lease l))) \<le> maxUpdateRetries \<and>
       (fst (RenewLease lease l) \<noteq> None \<longrightarrow>
          attempts l (snd (snd (RenewLease lease l))) = maxUpdateRetries)) \<and>
      (1 \<le> attempts l (snd (snd (TakeLease lease l))) \<and>
       attempts l (snd (snd (TakeLease lease l))) \<le> maxUpdateRetries \<and>
       (fst (TakeLease lease l) \<noteq> None \<longrightarrow>
          attempts l (snd (snd (TakeLease lease l))) = maxUpdateRetries)) \<and>
      (1 \<le> attempts l (snd (snd (EvictLease lease l))) \<and>
       attempts l (snd (snd (EvictLease lease l))) \<le> maxUpdateRetries \<and>
       (fst (EvictLease lease l) \<noteq> None \<longrightarrow>
          attempts l (snd (snd (EvictLease lease l))) = maxUpdateRetries)) \<and>
      (1 \<le> attempts l (snd (DeleteLease lease l)) \<and>
       attempts l (snd (DeleteLease lease l)) \<le> maxDeleteRetries \<and>
       (fst (DeleteLease lease l) \<noteq> None \<longrightarrow>
          attempts l (snd (DeleteLease lease l)) = maxDeleteRetries))) \<and>
   attempts l (snd (CreateLease lease l)) = 1 \<and>
   now (snd (CreateLease lease l)) = now l \<and>
   (faults (Client l) = Some e # fs \<longrightarrow> fst (CreateLease lease l) = Some e)"
  using retriesUpTo_operations(1) retriesUpTo_operations(2) [where ?'a = 'a]
    retriesUpTo_operations(3-6) [where lease = lease]
    request_bounds [where l = l and lease = lease and ?'a = 'a]
    CreateLease_once(1,2) [where l = l and lease = lease]
    CreateLease_once(3) [where l = l and lease = lease and e = e and fs = fs]
  by (simp add: maxCreateRetries_def maxScanRetries_def maxUpdateRetries_def
      maxDeleteRetries_def)

theorem retry_caps_witness:
  "faults (Client flaky) = [Some timeout] \<and>
   fst (RenewLease heldLease flaky) = None \<and>
   attempts flaky (snd (snd (RenewLease heldLease flaky))) = 2 \<and>
   now (snd (snd (RenewLease heldLease flaky))) = now flaky + policy 0 \<and>
   faults (Client down) = [Some timeout, Some timeout] \<and>
   fst (RenewLease heldLease down) = Some timeout \<and>
   attempts down (snd (snd (RenewLease heldLease down))) = 2 \<and>
   now (snd (snd (RenewLease heldLease down))) = now down + policy 0 + policy 1 \<and>
   policy 0 = 100 \<and> policy 1 = 200"
proof -
  have r: "retriesUpTo maxUpdateRetries (\<lambda>e. True)
     (\<lambda>l. (fst (RenewLease heldLease l), snd (snd (RenewLease heldLease l))))"
    using retry_caps [where lease = heldLease and l = worker1 and e = timeout and fs = "[]"]
    by blast
  from r [unfolded retriesUpTo_def, rule_format, of flaky "[timeout]"]
    r [unfolded retriesUpTo_def, rule_format, of down "[timeout, timeout]"]
  show ?thesis
    by (simp add: flaky_facts flaky_served down_facts renew_held policy_def
        maxUpdateRetries_def numeral_2_eq_2)
qed

text \<open>
  The claim as stated, every operation, fails for \<open>CreateLease\<close>, which has no retry loop:
  when the first request times out it returns the error after that single request, although
  the store would have served the next one.
\<close>

theorem create_lease_sent_once:
  "faults (Client flaky) = [Some timeout] \<and>
   fst (CreateLease newLease flaky) = Some timeout \<and>
   attempts flaky (snd (CreateLease newLease flaky)) = 1 \<and>
   faults (Client (snd (CreateLease newLease flaky))) = []"
  by (simp add: CreateLease_def PutItem_def receive_def flaky_facts attempts_def)

end
